theory Spec2Isabelle
  imports Main "HOL-Library.Word" "HOL-Library.Sublist"
begin

unbundle bit_operations_syntax

section \<open>Python values\<close>

text \<open>
  The values that \<^verbatim>\<open>json.loads\<close> produces, and that the Lambda runtime hands to the
  handler: \<^verbatim>\<open>None\<close>, booleans, unbounded integers, floats (as their IEEE-754 bit
  pattern), strings, lists and dictionaries. A dictionary is an association list read
  with \<open>map_of\<close>: the first binding of a key is the value of that key.
\<close>

datatype json =
    JNull
  | JBool bool
  | JInt int
  | JFloat "64 word"
  | JStr string
  | JArr "json list"
  | JObj "(string \<times> json) list"

text \<open>
  The subclasses of \<^verbatim>\<open>Exception\<close> that the program can meet. \<open>ClientError\<close>
  carries \<^verbatim>\<open>e.response['Error']['Code']\<close>, which botocore fills in for every error
  response; \<open>OtherException\<close> stands for every other subclass of \<^verbatim>\<open>Exception\<close>, by
  name (\<^verbatim>\<open>ParamValidationError\<close>, \<^verbatim>\<open>EndpointConnectionError\<close>, ...).
\<close>

datatype exn =
    KeyError string
  | TypeError
  | AttributeError
  | JSONDecodeError
  | ClientError string
  | OtherException string

text \<open>\<^verbatim>\<open>x[k]\<close> for a string \<open>k\<close>: only a dictionary can be subscripted by a string.\<close>

fun py_getitem :: "json \<Rightarrow> string \<Rightarrow> exn + json" where
  "py_getitem (JObj kvs) k = (case map_of kvs k of None \<Rightarrow> Inl (KeyError k) | Some v \<Rightarrow> Inr v)"
| "py_getitem _ k = Inl TypeError"

text \<open>\<^verbatim>\<open>x.get(k, d)\<close>: only a dictionary has the method.\<close>

fun py_get :: "json \<Rightarrow> string \<Rightarrow> json \<Rightarrow> exn + json" where
  "py_get (JObj kvs) k d = (case map_of kvs k of None \<Rightarrow> Inr d | Some v \<Rightarrow> Inr v)"
| "py_get _ k d = Inl AttributeError"

text \<open>\<^verbatim>\<open>needle in hay\<close> on two strings: a substring test.\<close>

fun py_str_contains :: "string \<Rightarrow> string \<Rightarrow> bool" where
  "py_str_contains needle [] = (needle = [])"
| "py_str_contains needle (c # cs) = (prefix needle (c # cs) \<or> py_str_contains needle cs)"

text \<open>
  \<^verbatim>\<open>k in x\<close> for a string \<open>k\<close>: a key of a dictionary, an element of a list, a
  substring of a string; the other values are not iterable.
\<close>

fun py_contains :: "string \<Rightarrow> json \<Rightarrow> exn + bool" where
  "py_contains k (JObj kvs) = Inr (k \<in> fst ` set kvs)"
| "py_contains k (JArr xs) = Inr (JStr k \<in> set xs)"
| "py_contains k (JStr s) = Inr (py_str_contains k s)"
| "py_contains k _ = Inl TypeError"

text \<open>The keys of a dictionary, each once.\<close>

definition dict_keys :: "(string \<times> json) list \<Rightarrow> string list" where
  "dict_keys kvs = remdups (map fst kvs)"

text \<open>
  What a \<^verbatim>\<open>for\<close> loop runs over: the elements of a list, the keys of a dictionary, the
  characters of a string; the other values are not iterable.
\<close>

fun py_iter :: "json \<Rightarrow> exn + json list" where
  "py_iter (JArr xs) = Inr xs"
| "py_iter (JObj kvs) = Inr (map JStr (dict_keys kvs))"
| "py_iter (JStr s) = Inr (map (\<lambda>c. JStr [c]) s)"
| "py_iter _ = Inl TypeError"

text \<open>\<^verbatim>\<open>len(x)\<close>.\<close>

fun py_len :: "json \<Rightarrow> exn + nat" where
  "py_len (JArr xs) = Inr (length xs)"
| "py_len (JObj kvs) = Inr (length (dict_keys kvs))"
| "py_len (JStr s) = Inr (length s)"
| "py_len _ = Inl TypeError"

text \<open>
  The truth value of \<^verbatim>\<open>x\<close> in \<^verbatim>\<open>x and y\<close>. A float is false when it is
  \<open>0.0\<close> or \<open>-0.0\<close>: every bit but the sign is zero.
\<close>

fun py_truthy :: "json \<Rightarrow> bool" where
  "py_truthy JNull = False"
| "py_truthy (JBool b) = b"
| "py_truthy (JInt i) = (i \<noteq> 0)"
| "py_truthy (JFloat w) = (push_bit 1 w \<noteq> 0)"
| "py_truthy (JStr s) = (s \<noteq> [])"
| "py_truthy (JArr xs) = (xs \<noteq> [])"
| "py_truthy (JObj kvs) = (kvs \<noteq> [])"

section \<open>The world outside: log, configuration, storage backend, parser\<close>

datatype level = INFO | WARNING | ERROR

text \<open>
  One constructor for each message template of the source, with the values it
  interpolates.
\<close>

datatype message =
    Processing_SQS_messages nat
  | Copying json json string
  | Successfully_copied json
  | Object_not_found json
  | Error_copying json exn
  | Unexpected_error_copying json exn
  | Unexpected_message_format json
  | Error_processing_message exn
  | Processing_complete int int

text \<open>The arguments of one call of \<^verbatim>\<open>s3_client.copy_object\<close>.\<close>

record copy_request =
  CopySource_Bucket :: json
  CopySource_Key :: json
  Bucket :: string
  Key :: json
  MetadataDirective :: string

text \<open>
  The state of one invocation: the two counters of \<^verbatim>\<open>lambda_handler\<close>, the lines
  written to the logger, and the requests sent to the storage backend, both oldest first.
\<close>

record state =
  success_count :: int
  error_count :: int
  log_lines :: "(level \<times> message) list"
  copy_calls :: "copy_request list"

text \<open>\<^verbatim>\<open>os.environ\<close>.\<close>

type_synonym environ = "string \<rightharpoonup> string"

text \<open>
  \<^verbatim>\<open>s3_client.copy_object\<close>: the backend answers a request by returning or by raising,
  and its answer may depend on the requests it has received before.
\<close>

type_synonym s3_client = "copy_request list \<Rightarrow> copy_request \<Rightarrow> exn + unit"

text \<open>\<^verbatim>\<open>json.loads\<close> on a string: the parsed value, or the exception it raises.\<close>

type_synonym json_loads = "string \<Rightarrow> exn + json"

definition logger :: "level \<Rightarrow> message \<Rightarrow> state \<Rightarrow> state" where
  "logger lvl msg st = st\<lparr>log_lines := log_lines st @ [(lvl, msg)]\<rparr>"

section \<open>copy_s3_object\<close>

definition copy_s3_object ::
  "environ \<Rightarrow> s3_client \<Rightarrow> json \<Rightarrow> json \<Rightarrow> state \<Rightarrow> (exn + unit) \<times> state" where
  "copy_s3_object environ copy_object source_bucket source_key st =
    (case environ ''DESTINATION_BUCKET'' of
       None \<Rightarrow> (Inl (KeyError ''DESTINATION_BUCKET''), st)
     | Some destination_bucket \<Rightarrow>
         (let st1 = logger INFO (Copying source_bucket source_key destination_bucket) st;
              req = \<lparr>CopySource_Bucket = source_bucket, CopySource_Key = source_key,
                     Bucket = destination_bucket, Key = source_key,
                     MetadataDirective = ''COPY''\<rparr>;
              st2 = st1\<lparr>copy_calls := copy_calls st1 @ [req]\<rparr>
          in case copy_object (copy_calls st1) req of
               Inr _ \<Rightarrow> (Inr (), logger INFO (Successfully_copied source_key) st2)
             | Inl (ClientError error_code) \<Rightarrow>
                 if error_code = ''NoSuchKey''
                 then (Inr (), logger WARNING (Object_not_found source_key) st2)
                 else (Inl (ClientError error_code),
                       logger ERROR (Error_copying source_key (ClientError error_code)) st2)
             | Inl e \<Rightarrow> (Inl e, logger ERROR (Unexpected_error_copying source_key e) st2)))"

section \<open>lambda_handler\<close>

text \<open>\<^verbatim>\<open>json.loads(record['body'])\<close>: the argument of \<^verbatim>\<open>json.loads\<close> must be a string.\<close>

definition parse_body :: "json_loads \<Rightarrow> json \<Rightarrow> exn + json" where
  "parse_body loads record =
    (case py_getitem record ''body'' of
       Inl e \<Rightarrow> Inl e
     | Inr (JStr s) \<Rightarrow> loads s
     | Inr _ \<Rightarrow> Inl TypeError)"

text \<open>
  Sequencing of two steps that may raise: the second runs on the value of the first,
  unless the first raised.
\<close>

fun py_then :: "exn + 'a \<Rightarrow> ('a \<Rightarrow> exn + 'b) \<Rightarrow> exn + 'b" where
  "py_then (Inl e) f = Inl e"
| "py_then (Inr v) f = f v"

text \<open>\<^verbatim>\<open>(s3_record['s3']['bucket']['name'], s3_record['s3']['object']['key'])\<close>.\<close>

definition s3_record_reference :: "json \<Rightarrow> exn + json \<times> json" where
  "s3_record_reference s3_record =
    py_then (py_getitem s3_record ''s3'') (\<lambda>s3.
    py_then (py_getitem s3 ''bucket'') (\<lambda>b.
    py_then (py_getitem b ''name'') (\<lambda>bucket_name.
    py_then (py_getitem s3_record ''s3'') (\<lambda>s3'.
    py_then (py_getitem s3' ''object'') (\<lambda>ob.
    py_then (py_getitem ob ''key'') (\<lambda>object_key.
      Inr (bucket_name, object_key)))))))"

text \<open>
  \<^verbatim>\<open>(message_body.get('bucket', {}).get('name'), message_body.get('object', {}).get('key'))\<close>.
\<close>

definition direct_reference :: "json \<Rightarrow> exn + json \<times> json" where
  "direct_reference message_body =
    py_then (py_get message_body ''bucket'' (JObj [])) (\<lambda>b.
    py_then (py_get b ''name'' JNull) (\<lambda>bucket_name.
    py_then (py_get message_body ''object'' (JObj [])) (\<lambda>ob.
    py_then (py_get ob ''key'' JNull) (\<lambda>object_key.
      Inr (bucket_name, object_key)))))"

text \<open>
  The loop over the inner records of a notification. An exception leaves the loop: the
  records after it are not visited.
\<close>

fun s3_records_loop ::
  "environ \<Rightarrow> s3_client \<Rightarrow> json list \<Rightarrow> state \<Rightarrow> (exn + unit) \<times> state" where
  "s3_records_loop environ copy_object [] st = (Inr (), st)"
| "s3_records_loop environ copy_object (s3_record # rest) st =
    (case py_get s3_record ''eventSource'' JNull of
       Inl e \<Rightarrow> (Inl e, st)
     | Inr src \<Rightarrow>
         if src = JStr ''aws:s3'' then
           (case s3_record_reference s3_record of
              Inl e \<Rightarrow> (Inl e, st)
            | Inr (bucket_name, object_key) \<Rightarrow>
                (case copy_s3_object environ copy_object bucket_name object_key st of
                   (Inl e, st') \<Rightarrow> (Inl e, st')
                 | (Inr _, st') \<Rightarrow>
                     s3_records_loop environ copy_object rest
                       (st'\<lparr>success_count := success_count st' + 1\<rparr>)))
         else s3_records_loop environ copy_object rest st)"

text \<open>The body of the \<^verbatim>\<open>try\<close> after the message body is parsed.\<close>

definition handle_message_body ::
  "environ \<Rightarrow> s3_client \<Rightarrow> json \<Rightarrow> state \<Rightarrow> (exn + unit) \<times> state" where
  "handle_message_body environ copy_object message_body st =
    (case py_contains ''Records'' message_body of
       Inl e \<Rightarrow> (Inl e, st)
     | Inr True \<Rightarrow>
         (case py_getitem message_body ''Records'' of
            Inl e \<Rightarrow> (Inl e, st)
          | Inr rs \<Rightarrow>
              (case py_iter rs of
                 Inl e \<Rightarrow> (Inl e, st)
               | Inr s3_records \<Rightarrow> s3_records_loop environ copy_object s3_records st))
     | Inr False \<Rightarrow>
         (case direct_reference message_body of
            Inl e \<Rightarrow> (Inl e, st)
          | Inr (bucket_name, object_key) \<Rightarrow>
              if py_truthy bucket_name \<and> py_truthy object_key then
                (case copy_s3_object environ copy_object bucket_name object_key st of
                   (Inl e, st') \<Rightarrow> (Inl e, st')
                 | (Inr _, st') \<Rightarrow> (Inr (), st'\<lparr>success_count := success_count st' + 1\<rparr>))
              else
                (let st' = logger WARNING (Unexpected_message_format message_body) st
                 in (Inr (), st'\<lparr>error_count := error_count st' + 1\<rparr>))))"

text \<open>One turn of the outer loop: the \<^verbatim>\<open>try\<close> and its \<^verbatim>\<open>except Exception\<close>.\<close>

definition process_record ::
  "environ \<Rightarrow> s3_client \<Rightarrow> json_loads \<Rightarrow> json \<Rightarrow> state \<Rightarrow> state" where
  "process_record environ copy_object loads record st =
    (case (case parse_body loads record of
             Inl e \<Rightarrow> (Inl e, st)
           | Inr message_body \<Rightarrow> handle_message_body environ copy_object message_body st) of
       (Inr _, st') \<Rightarrow> st'
     | (Inl e, st') \<Rightarrow>
         (let st'' = logger ERROR (Error_processing_message e) st'
          in st''\<lparr>error_count := error_count st'' + 1\<rparr>))"

fun records_loop ::
  "environ \<Rightarrow> s3_client \<Rightarrow> json_loads \<Rightarrow> json list \<Rightarrow> state \<Rightarrow> state" where
  "records_loop environ copy_object loads [] st = st"
| "records_loop environ copy_object loads (record # rest) st =
    records_loop environ copy_object loads rest
      (process_record environ copy_object loads record st)"

text \<open>Decimal digits of a natural number, and \<^verbatim>\<open>str\<close> of an integer.\<close>

fun str_nat :: "nat \<Rightarrow> string" where
  "str_nat n =
    (if n < 10 then [''0123456789'' ! n]
     else str_nat (n div 10) @ [''0123456789'' ! (n mod 10)])"

definition str_int :: "int \<Rightarrow> string" where
  "str_int i = (if i < 0 then CHR ''-'' # str_nat (nat (- i)) else str_nat (nat i))"

text \<open>
  \<^verbatim>\<open>json.dumps({'success_count': s, 'error_count': e})\<close>, with the default separators.
\<close>

definition dumps_counts :: "int \<Rightarrow> int \<Rightarrow> string" where
  "dumps_counts s e =
     ''{'' @ [CHR 0x22] @ ''success_count'' @ [CHR 0x22] @ '': '' @ str_int s @ '', '' @
     [CHR 0x22] @ ''error_count'' @ [CHR 0x22] @ '': '' @ str_int e @ ''}''"

record response =
  statusCode :: int
  body :: string

definition initial_state :: state where
  "initial_state = \<lparr>success_count = 0, error_count = 0, log_lines = [], copy_calls = []\<rparr>"

text \<open>\<^verbatim>\<open>event.get('Records', [])\<close>, the event being a dictionary.\<close>

definition event_records :: "(string \<times> json) list \<Rightarrow> json" where
  "event_records event = (case map_of event ''Records'' of None \<Rightarrow> JArr [] | Some v \<Rightarrow> v)"

text \<open>
  The handler. \<^verbatim>\<open>len\<close> in the first log line is outside every \<^verbatim>\<open>try\<close>: on a value
  without a length the handler raises.
\<close>

definition lambda_handler ::
  "environ \<Rightarrow> s3_client \<Rightarrow> json_loads \<Rightarrow> (string \<times> json) list \<Rightarrow> (exn + response) \<times> state" where
  "lambda_handler environ copy_object loads event =
    (case py_len (event_records event) of
       Inl e \<Rightarrow> (Inl e, initial_state)
     | Inr n \<Rightarrow>
         (let st0 = logger INFO (Processing_SQS_messages n) initial_state
          in case py_iter (event_records event) of
               Inl e \<Rightarrow> (Inl e, st0)
             | Inr records \<Rightarrow>
                 (let st1 = records_loop environ copy_object loads records st0;
                      st2 = logger INFO
                              (Processing_complete (success_count st1) (error_count st1)) st1
                  in (Inr \<lparr>statusCode = 200,
                           body = dumps_counts (success_count st1) (error_count st1)\<rparr>,
                      st2))))"

section \<open>validate_s3_notification\<close>

text \<open>
  The loop of the validator over the inner records: it returns at the first record that
  passes the four tests, and falls through to \<^verbatim>\<open>return False\<close> when none does. The
  tests are evaluated left to right, and each may raise.
\<close>

fun validate_records :: "json list \<Rightarrow> exn + bool" where
  "validate_records [] = Inr False"
| "validate_records (record # rest) =
    (case py_get record ''eventSource'' JNull of
       Inl e \<Rightarrow> Inl e
     | Inr src \<Rightarrow>
         if src \<noteq> JStr ''aws:s3'' then validate_records rest
         else
           (case py_contains ''s3'' record of
              Inl e \<Rightarrow> Inl e
            | Inr has_s3 \<Rightarrow>
                if \<not> has_s3 then validate_records rest
                else
                  (case py_then (py_getitem record ''s3'') (py_contains ''bucket'') of
                     Inl e \<Rightarrow> Inl e
                   | Inr has_bucket \<Rightarrow>
                       if \<not> has_bucket then validate_records rest
                       else
                         (case py_then (py_getitem record ''s3'') (py_contains ''object'') of
                            Inl e \<Rightarrow> Inl e
                          | Inr has_object \<Rightarrow>
                              if has_object then Inr True else validate_records rest))))"

definition validate_s3_notification :: "json \<Rightarrow> exn + bool" where
  "validate_s3_notification message_body =
    py_then (py_contains ''Records'' message_body) (\<lambda>has_records.
      if has_records then
        py_then (py_getitem message_body ''Records'') (\<lambda>rs.
        py_then (py_iter rs) validate_records)
      else
        py_then (py_contains ''bucket'' message_body) (\<lambda>has_bucket.
          if \<not> has_bucket then Inr False
          else
            py_then (py_contains ''object'' message_body) (\<lambda>has_object.
              if \<not> has_object then Inr False
              else
                py_then (py_getitem message_body ''bucket'') (\<lambda>b.
                py_then (py_get b ''name'' JNull) (\<lambda>bucket_name.
                  if \<not> py_truthy bucket_name then Inr False
                  else
                    py_then (py_getitem message_body ''object'') (\<lambda>ob.
                    py_then (py_get ob ''key'' JNull) (\<lambda>object_key.
                      Inr (py_truthy object_key))))))))"

section \<open>Notions used by the properties\<close>

text \<open>A value that \<^verbatim>\<open>len\<close> accepts: a list, a dictionary or a string.\<close>

definition has_len :: "json \<Rightarrow> bool" where
  "has_len v = (case py_len v of Inr _ \<Rightarrow> True | Inl _ \<Rightarrow> False)"

text \<open>An inner record that the loop takes for a storage event.\<close>

definition storage_tagged :: "json \<Rightarrow> bool" where
  "storage_tagged s3_record = (py_get s3_record ''eventSource'' JNull = Inr (JStr ''aws:s3''))"

text \<open>
  The units of work of a batch: every inner record of a notification whose
  \<^verbatim>\<open>Records\<close> can be iterated is one unit, and every other envelope is one unit.
\<close>

definition message_units :: "json \<Rightarrow> nat" where
  "message_units message_body =
    (case message_body of
       JObj kvs \<Rightarrow>
         (case map_of kvs ''Records'' of
            None \<Rightarrow> 1
          | Some rs \<Rightarrow> (case py_iter rs of Inl _ \<Rightarrow> 1 | Inr s3_records \<Rightarrow> length s3_records))
     | _ \<Rightarrow> 1)"

definition envelope_units :: "json_loads \<Rightarrow> json \<Rightarrow> nat" where
  "envelope_units loads record =
    (case parse_body loads record of Inl _ \<Rightarrow> 1 | Inr message_body \<Rightarrow> message_units message_body)"

definition batch_units :: "json_loads \<Rightarrow> json list \<Rightarrow> nat" where
  "batch_units loads records = sum_list (map (envelope_units loads) records)"

text \<open>
  A request as the program is meant to send it: to the configured destination bucket,
  under the key of the source, with the metadata copied.
\<close>

definition copies_to_same_key :: "environ \<Rightarrow> copy_request \<Rightarrow> bool" where
  "copies_to_same_key environ req =
    (environ ''DESTINATION_BUCKET'' = Some (Bucket req) \<and> Key req = CopySource_Key req \<and>
     MetadataDirective req = ''COPY'')"

text \<open>
  The field \<open>inner\<close> of the object under the field \<open>outer\<close> of a dictionary, when there
  is one; and a value that is missing or empty (false as a condition).
\<close>

definition nested_field :: "(string \<times> json) list \<Rightarrow> string \<Rightarrow> string \<Rightarrow> json option" where
  "nested_field kvs outer inner =
    (case map_of kvs outer of Some (JObj members) \<Rightarrow> map_of members inner | _ \<Rightarrow> None)"

definition missing_or_empty :: "json option \<Rightarrow> bool" where
  "missing_or_empty v = (case v of None \<Rightarrow> True | Some x \<Rightarrow> \<not> py_truthy x)"

text \<open>A field that is there and holds something else than an object.\<close>

definition present_not_object :: "json option \<Rightarrow> bool" where
  "present_not_object v = (case v of None \<Rightarrow> False | Some (JObj _) \<Rightarrow> False | Some _ \<Rightarrow> True)"

text \<open>
  The loop over the inner records as the specification words it, for comparison with
  \<open>s3_records_loop\<close>: every inner record is handled on its own and counted as one
  success or one error, and a failure does not end the loop.
\<close>

fun independent_records_loop ::
  "environ \<Rightarrow> s3_client \<Rightarrow> json list \<Rightarrow> state \<Rightarrow> state" where
  "independent_records_loop environ copy_object [] st = st"
| "independent_records_loop environ copy_object (s3_record # rest) st =
    independent_records_loop environ copy_object rest
      (case s3_records_loop environ copy_object [s3_record] st of
         (Inr _, st') \<Rightarrow> st'
       | (Inl e, st') \<Rightarrow> st'\<lparr>error_count := error_count st' + 1\<rparr>)"

text \<open>
  What a client finds in the body of the response. The reader below accepts the notation
  that \<^verbatim>\<open>json.dumps\<close> writes for an object of two members with integer values,
  \<^verbatim>\<open>{"k1": i1, "k2": i2}\<close>, and returns the two members, keys and values, in their
  order. First the decimal digits and their values.
\<close>

definition is_digit :: "char \<Rightarrow> bool" where
  "is_digit c = (c \<in> set ''0123456789'')"

definition digit_value :: "char \<Rightarrow> nat" where
  "digit_value c = length (takeWhile (\<lambda>d. d \<noteq> c) ''0123456789'')"

text \<open>A natural number in decimal digits, and an integer with an optional sign.\<close>

definition read_nat :: "string \<Rightarrow> nat option" where
  "read_nat cs =
    (if cs \<noteq> [] \<and> list_all is_digit cs
     then Some (foldl (\<lambda>n c. 10 * n + digit_value c) 0 cs) else None)"

fun read_int :: "string \<Rightarrow> int option" where
  "read_int [] = None"
| "read_int (c # cs) =
    (if c = CHR ''-'' then map_option (\<lambda>n. - int n) (read_nat cs)
     else map_option int (read_nat (c # cs)))"

text \<open>The rest of a text after a given beginning.\<close>

fun after_prefix :: "string \<Rightarrow> string \<Rightarrow> string option" where
  "after_prefix [] s = Some s"
| "after_prefix (p # ps) [] = None"
| "after_prefix (p # ps) (c # cs) = (if p = c then after_prefix ps cs else None)"

text \<open>The characters of an integer.\<close>

definition int_char :: "char \<Rightarrow> bool" where
  "int_char c = (is_digit c \<or> c = CHR ''-'')"

text \<open>
  One member \<^verbatim>\<open>"key": integer\<close>: the key between the quotes, the integer after the
  colon, and the text that follows.
\<close>

definition read_member :: "string \<Rightarrow> ((string \<times> int) \<times> string) option" where
  "read_member s =
    (case after_prefix [CHR 0x22] s of
       None \<Rightarrow> None
     | Some s1 \<Rightarrow>
         (case after_prefix ([CHR 0x22] @ '': '') (dropWhile (\<lambda>c. c \<noteq> CHR 0x22) s1) of
            None \<Rightarrow> None
          | Some s2 \<Rightarrow>
              (case read_int (takeWhile int_char s2) of
                 None \<Rightarrow> None
               | Some i \<Rightarrow>
                   Some ((takeWhile (\<lambda>c. c \<noteq> CHR 0x22) s1, i), dropWhile int_char s2))))"

text \<open>The object of two members between its braces.\<close>

definition read_body :: "string \<Rightarrow> (string \<times> int) list option" where
  "read_body s =
    (case after_prefix ''{'' s of
       None \<Rightarrow> None
     | Some s1 \<Rightarrow>
         (case read_member s1 of
            None \<Rightarrow> None
          | Some (m1, s2) \<Rightarrow>
              (case after_prefix '', '' s2 of
                 None \<Rightarrow> None
               | Some s3 \<Rightarrow>
                   (case read_member s3 of
                      None \<Rightarrow> None
                    | Some (m2, s4) \<Rightarrow> if s4 = ''}'' then Some [m1, m2] else None))))"

section \<open>Sample inputs\<close>

definition sample_environ :: environ where
  "sample_environ = [''DESTINATION_BUCKET'' \<mapsto> ''backup'']"

text \<open>A backend on which every copy succeeds.\<close>

definition backend_ok :: s3_client where
  "backend_ok history req = Inr ()"

text \<open>A queue message with the given text as its body.\<close>

definition envelope :: "string \<Rightarrow> json" where
  "envelope s = JObj [(''body'', JStr s)]"

definition direct_body :: "string \<Rightarrow> string \<Rightarrow> json" where
  "direct_body b k =
     JObj [(''bucket'', JObj [(''name'', JStr b)]), (''object'', JObj [(''key'', JStr k)])]"

definition storage_record :: "string \<Rightarrow> string \<Rightarrow> json" where
  "storage_record b k =
     JObj [(''eventSource'', JStr ''aws:s3''),
           (''s3'', JObj [(''bucket'', JObj [(''name'', JStr b)]),
                          (''object'', JObj [(''key'', JStr k)])])]"

definition wrapped_body :: "json list \<Rightarrow> json" where
  "wrapped_body s3_records = JObj [(''Records'', JArr s3_records)]"

definition no_environ :: environ where
  "no_environ = Map.empty"

text \<open>Backends on which every copy fails: the source is not there; access is denied.\<close>

definition backend_not_found :: s3_client where
  "backend_not_found history req = Inl (ClientError ''NoSuchKey'')"

definition backend_denied :: s3_client where
  "backend_denied history req = Inl (ClientError ''AccessDenied'')"

text \<open>
  Stand-ins for \<^verbatim>\<open>json.loads\<close>, each on the one message text of its example: a direct
  reference; a notification whose first inner record has no \<^verbatim>\<open>s3\<close> field and whose
  second is complete; a direct reference whose \<^verbatim>\<open>bucket\<close> is \<^verbatim>\<open>null\<close>; a JSON array.
\<close>

definition loads_direct :: json_loads where
  "loads_direct s = Inr (direct_body ''inbox'' ''folder/a.txt'')"

definition broken_record :: json where
  "broken_record = JObj [(''eventSource'', JStr ''aws:s3'')]"

definition loads_broken_first :: json_loads where
  "loads_broken_first s =
     Inr (wrapped_body [broken_record, storage_record ''inbox'' ''folder/a.txt''])"

definition null_bucket_body :: json where
  "null_bucket_body =
     JObj [(''bucket'', JNull), (''object'', JObj [(''key'', JStr ''folder/a.txt'')])]"

definition loads_null_bucket :: json_loads where
  "loads_null_bucket s = Inr null_bucket_body"

definition loads_array :: json_loads where
  "loads_array s = Inr (JArr [JInt 1, JInt 2])"

text \<open>
  Further stand-ins for \<^verbatim>\<open>json.loads\<close>: a notification with three storage records; a
  notification with a record of another service between two storage records.
\<close>

definition loads_three_records :: json_loads where
  "loads_three_records s =
     Inr (wrapped_body [storage_record ''inbox'' ''a.txt'', storage_record ''inbox'' ''b.txt'',
                        storage_record ''inbox'' ''c.txt''])"

definition sns_record :: json where
  "sns_record = JObj [(''eventSource'', JStr ''aws:sns'')]"

text \<open>A direct reference without an object key, and its stand-in for \<^verbatim>\<open>json.loads\<close>.\<close>

definition missing_key_body :: json where
  "missing_key_body = JObj [(''bucket'', JObj [(''name'', JStr ''inbox'')])]"

definition loads_missing_key :: json_loads where
  "loads_missing_key s = Inr missing_key_body"

section \<open>Basic facts\<close>

lemma logger_simps [simp]:
  "success_count (logger l m st) = success_count st"
  "error_count (logger l m st) = error_count st"
  "copy_calls (logger l m st) = copy_calls st"
  "log_lines (logger l m st) = log_lines st @ [(l, m)]"
  by (simp_all add: logger_def)

lemma has_len_iter:
  "has_len v \<Longrightarrow> \<exists>n xs. py_len v = Inr n \<and> py_iter v = Inr xs"
  by (cases v) (simp_all add: has_len_def)

lemma py_contains_obj: "py_contains k (JObj kvs) = Inr (map_of kvs k \<noteq> None)"
  by (simp add: map_of_eq_None_iff)

text \<open>On a batch whose records have a length, the handler runs to its \<^verbatim>\<open>return\<close>.\<close>

lemma lambda_handler_returns:
  assumes "has_len (event_records event)"
  shows "\<exists>n xs. py_len (event_records event) = Inr n \<and> py_iter (event_records event) = Inr xs \<and>
    lambda_handler environ copy_object loads event =
     (let st = records_loop environ copy_object loads xs
                 (logger INFO (Processing_SQS_messages n) initial_state)
      in (Inr \<lparr>statusCode = 200, body = dumps_counts (success_count st) (error_count st)\<rparr>,
      logger INFO (Processing_complete (success_count st) (error_count st)) st))"
proof -
  from has_len_iter [OF assms] obtain n xs
    where "py_len (event_records event) = Inr n" "py_iter (event_records event) = Inr xs"
    by blast
  then show ?thesis
    by (simp add: lambda_handler_def Let_def)
qed

lemmas eval_defs = lambda_handler_def event_records_def initial_state_def process_record_def
  parse_body_def handle_message_body_def direct_reference_def s3_record_reference_def
  copy_s3_object_def sample_environ_def backend_ok_def envelope_def direct_body_def
  storage_record_def wrapped_body_def Let_def logger_def has_len_def no_environ_def
  backend_not_found_def backend_denied_def loads_direct_def broken_record_def
  loads_broken_first_def null_bucket_body_def loads_null_bucket_def loads_array_def
  storage_tagged_def loads_three_records_def sns_record_def
  missing_key_body_def loads_missing_key_def

section \<open>The counters\<close>

text \<open>
  The counters move only in the handler: a copy leaves both as they are, the loop over
  the inner records never touches the error counter, and every envelope adds to the two
  counters no more than its units.
\<close>

lemma copy_s3_object_counts:
  "copy_s3_object environ copy_object b k st = (r, st') \<Longrightarrow>
     success_count st' = success_count st \<and> error_count st' = error_count st"
  by (auto simp: copy_s3_object_def Let_def split: option.splits sum.splits exn.splits if_splits)

lemma s3_records_loop_counts:
  "s3_records_loop environ copy_object xs st = (r, st') \<Longrightarrow>
     error_count st' = error_count st \<and>
     success_count st \<le> success_count st' \<and>
     success_count st' + (case r of Inl _ \<Rightarrow> 1 | Inr _ \<Rightarrow> 0) \<le> success_count st + int (length xs)"
proof (induction xs arbitrary: st)
  case Nil
  then show ?case by auto
next
  case (Cons x xs)
  show ?case
  proof (cases "py_get x ''eventSource'' JNull")
    case (Inl e)
    with Cons.prems show ?thesis by auto
  next
    case (Inr src)
    show ?thesis
    proof (cases "src = JStr ''aws:s3''")
      case False
      with Inr Cons.prems have "s3_records_loop environ copy_object xs st = (r, st')" by simp
      from Cons.IH [OF this] show ?thesis by auto
    next
      case True
      show ?thesis
      proof (cases "s3_record_reference x")
        case (Inl e)
        with Inr True Cons.prems show ?thesis by auto
      next
        case ref: (Inr bk)
        obtain b k where bk: "bk = (b, k)" by (cases bk)
        obtain r1 st1 where c: "copy_s3_object environ copy_object b k st = (r1, st1)"
          by (cases "copy_s3_object environ copy_object b k st")
        note cc = copy_s3_object_counts [OF c]
        show ?thesis
        proof (cases r1)
          case (Inl e)
          with Inr True ref bk c Cons.prems cc show ?thesis by auto
        next
          case r1: (Inr u)
          with Inr True ref bk c Cons.prems
          have "s3_records_loop environ copy_object xs (st1\<lparr>success_count := success_count st1 + 1\<rparr>) = (r, st')"
            by simp
          from Cons.IH [OF this] cc show ?thesis by auto
        qed
      qed
    qed
  qed
qed


lemma handle_direct_counts:
  assumes "handle_message_body environ copy_object mb st = (r, st')"
    and "py_contains ''Records'' mb = Inr False"
  shows "error_count st \<le> error_count st' \<and> success_count st \<le> success_count st' \<and>
     (success_count st' - success_count st) + (error_count st' - error_count st) +
       (case r of Inl _ \<Rightarrow> 1 | Inr _ \<Rightarrow> 0) \<le> 1"
proof (cases "direct_reference mb")
  case (Inl e)
  with assms show ?thesis by (auto simp: handle_message_body_def)
next
  case (Inr bk)
  obtain b k where bk: "bk = (b, k)" by (cases bk)
  obtain r1 st1 where c: "copy_s3_object environ copy_object b k st = (r1, st1)"
    by (cases "copy_s3_object environ copy_object b k st")
  note cc = copy_s3_object_counts [OF c]
  from assms Inr bk c cc show ?thesis
    by (cases r1) (auto simp: handle_message_body_def Let_def split: if_splits)
qed

lemma handle_message_body_counts:
  assumes "handle_message_body environ copy_object mb st = (r, st')"
  shows "error_count st \<le> error_count st' \<and> success_count st \<le> success_count st' \<and>
     (success_count st' - success_count st) + (error_count st' - error_count st) +
       (case r of Inl _ \<Rightarrow> 1 | Inr _ \<Rightarrow> 0) \<le> int (message_units mb)"
proof (cases "py_contains ''Records'' mb")
  case (Inl e)
  then have "message_units mb = 1" by (cases mb) (simp_all add: message_units_def)
  with Inl assms show ?thesis by (auto simp: handle_message_body_def)
next
  case (Inr has)
  show ?thesis
  proof (cases has)
    case False
    with Inr have nr: "py_contains ''Records'' mb = Inr False" by simp
    have "message_units mb = 1"
    proof (cases mb)
      case (JObj kvs)
      with nr have "map_of kvs ''Records'' = None"
        by (simp add: py_contains_obj del: py_contains.simps)
      with JObj show ?thesis by (simp add: message_units_def)
    qed (simp_all add: message_units_def)
    with handle_direct_counts [OF assms nr] show ?thesis by simp
  next
    case True
    show ?thesis
    proof (cases mb)
      case (JObj kvs)
      with Inr True obtain rs where rs: "map_of kvs ''Records'' = Some rs"
        by (auto simp: py_contains_obj simp del: py_contains.simps)
      show ?thesis
      proof (cases "py_iter rs")
        case (Inl e)
        with JObj rs Inr True assms show ?thesis
          by (auto simp: handle_message_body_def message_units_def simp del: py_contains.simps)
      next
        case it: (Inr xs)
        with JObj rs Inr True assms
        have "s3_records_loop environ copy_object xs st = (r, st')"
          by (auto simp: handle_message_body_def simp del: py_contains.simps)
        from s3_records_loop_counts [OF this] JObj rs it show ?thesis
          by (auto simp: message_units_def)
      qed
    qed (use Inr True assms in \<open>auto simp: handle_message_body_def message_units_def\<close>)
  qed
qed

lemma process_record_counts:
  "error_count st \<le> error_count (process_record environ copy_object loads record st) \<and>
   success_count st \<le> success_count (process_record environ copy_object loads record st) \<and>
   success_count (process_record environ copy_object loads record st) +
   error_count (process_record environ copy_object loads record st)
     \<le> success_count st + error_count st + int (envelope_units loads record)"
proof (cases "parse_body loads record")
  case (Inl e)
  then show ?thesis by (simp add: process_record_def envelope_units_def Let_def)
next
  case (Inr mb)
  obtain r st' where h: "handle_message_body environ copy_object mb st = (r, st')"
    by (cases "handle_message_body environ copy_object mb st")
  from handle_message_body_counts [OF h] Inr h show ?thesis
    by (cases r) (auto simp: process_record_def envelope_units_def Let_def)
qed

lemma records_loop_counts:
  "success_count (records_loop environ copy_object loads records st) +
   error_count (records_loop environ copy_object loads records st)
     \<le> success_count st + error_count st + int (batch_units loads records)"
proof (induction records arbitrary: st)
  case Nil
  then show ?case by (simp add: batch_units_def)
next
  case (Cons x xs)
  from Cons.IH [of "process_record environ copy_object loads x st"]
    process_record_counts [of st environ copy_object loads x]
  show ?case by (simp add: batch_units_def)
qed


section \<open>The result of an invocation\<close>

text \<open>
  The body that the handler writes reads back as the two counters: the decimal notation
  of \<^verbatim>\<open>str\<close> is read back digit by digit, and the serialisation of the counters is an
  object with the members \<^verbatim>\<open>success_count\<close> and \<^verbatim>\<open>error_count\<close>, in this order, that
  hold the two integers.
\<close>

lemma digit_nth:
  assumes "k < 10"
  shows "is_digit (''0123456789'' ! k) \<and> digit_value (''0123456789'' ! k) = k"
proof -
  from assms have "k \<in> {0, 1, 2, 3, 4, 5, 6, 7, 8, 9}" by auto
  then show ?thesis by (auto simp: is_digit_def digit_value_def)
qed

lemma str_nat_digits:
  "str_nat n \<noteq> [] \<and> list_all is_digit (str_nat n) \<and>
   foldl (\<lambda>n c. 10 * n + digit_value c) 0 (str_nat n) = n"
proof (induction n rule: str_nat.induct)
  case (1 n)
  show ?case
  proof (cases "n < 10")
    case True
    then have eq: "str_nat n = [''0123456789'' ! n]"
      by (subst str_nat.simps) (simp del: str_nat.simps)
    from digit_nth [OF True] show ?thesis
      unfolding eq by (simp del: str_nat.simps)
  next
    case False
    from digit_nth [of "n mod 10"]
    have d: "is_digit (''0123456789'' ! (n mod 10))"
      "digit_value (''0123456789'' ! (n mod 10)) = n mod 10"
      by (simp_all del: str_nat.simps)
    note ih = 1 [OF False]
    have eq: "str_nat n = str_nat (n div 10) @ [''0123456789'' ! (n mod 10)]"
      using False by (subst str_nat.simps) (simp del: str_nat.simps)
    show ?thesis unfolding eq using ih d by (simp del: str_nat.simps)
  qed
qed

lemma str_nat_not_empty: "str_nat n \<noteq> []"
  using str_nat_digits [of n] by blast

lemma str_nat_all_digits: "list_all is_digit (str_nat n)"
  using str_nat_digits [of n] by blast

lemma str_nat_value: "foldl (\<lambda>n c. 10 * n + digit_value c) 0 (str_nat n) = n"
  using str_nat_digits [of n] by blast

lemma read_nat_str_nat: "read_nat (str_nat n) = Some n"
  unfolding read_nat_def
  by (simp only: str_nat_not_empty str_nat_all_digits str_nat_value simp_thms if_True)

lemma is_digit_not_minus: "is_digit c \<Longrightarrow> c \<noteq> CHR ''-''"
  by (auto simp: is_digit_def)

lemma str_nat_no_minus:
  assumes "c \<in> set (str_nat n)"
  shows "c \<noteq> CHR ''-''"
proof -
  from str_nat_all_digits [of n] assms have "is_digit c"
    unfolding list_all_iff by blast
  then show ?thesis by (rule is_digit_not_minus)
qed

lemma read_int_str_int: "read_int (str_int i) = Some i"
proof (cases "i < 0")
  case True
  obtain c cs where s: "str_nat (nat (- i)) = c # cs"
    using str_nat_not_empty [of "nat (- i)"] by (cases "str_nat (nat (- i))") blast+
  from True have "str_int i = CHR ''-'' # str_nat (nat (- i))"
    unfolding str_int_def by (simp only: if_True)
  then have "read_int (str_int i) = map_option (\<lambda>n. - int n) (read_nat (str_nat (nat (- i))))"
    by (simp only: read_int.simps simp_thms if_True)
  also have "\<dots> = Some (- int (nat (- i)))"
    by (simp only: read_nat_str_nat option.map)
  also from True have "- int (nat (- i)) = i" by arith
  finally show ?thesis .
next
  case False
  obtain c cs where s: "str_nat (nat i) = c # cs"
    using str_nat_not_empty [of "nat i"] by (cases "str_nat (nat i)") blast+
  have "c \<in> set (str_nat (nat i))" unfolding s by (simp only: list.set_intros)
  then have c: "c \<noteq> CHR ''-''" by (rule str_nat_no_minus)
  from False have "str_int i = c # cs"
    unfolding str_int_def s [symmetric] by (simp only: if_False)
  then have "read_int (str_int i) = map_option int (read_nat (c # cs))"
    using c by (simp only: read_int.simps simp_thms if_False)
  also have "\<dots> = Some (int (nat i))"
    unfolding s [symmetric] by (simp only: read_nat_str_nat option.map)
  also from False have "int (nat i) = i" by arith
  finally show ?thesis .
qed

lemma str_int_chars:
  assumes "c \<in> set (str_int i)"
  shows "int_char c"
proof (cases "i < 0")
  case True
  with assms have "c = CHR ''-'' \<or> c \<in> set (str_nat (nat (- i)))"
    unfolding str_int_def by (simp del: str_nat.simps)
  with str_nat_all_digits [of "nat (- i)"] show ?thesis
    unfolding int_char_def list_all_iff by blast
next
  case False
  with assms have "c \<in> set (str_nat (nat i))"
    unfolding str_int_def by (simp del: str_nat.simps)
  with str_nat_all_digits [of "nat i"] show ?thesis
    unfolding int_char_def list_all_iff by blast
qed

lemma read_member_dumps:
  assumes "\<not> int_char (hd rest)" "rest \<noteq> []" "CHR 0x22 \<notin> set key"
  shows "read_member ([CHR 0x22] @ key @ [CHR 0x22] @ '': '' @ str_int i @ rest) =
     Some ((key, i), rest)"
proof -
  from assms obtain r rs where rest: "rest = r # rs" "\<not> int_char r" by (cases rest) auto
  have t: "takeWhile int_char (str_int i @ rest) = str_int i"
    using rest str_int_chars [of _ i] by simp
  have d: "dropWhile int_char (str_int i @ rest) = rest"
    using rest str_int_chars [of _ i] by simp
  have nk: "\<And>x. x \<in> set key \<Longrightarrow> x \<noteq> CHR 0x22" using assms(3) by auto
  have k: "takeWhile (\<lambda>c. c \<noteq> CHR 0x22) (key @ CHR 0x22 # CHR '':'' # CHR '' '' # str_int i @ rest) = key"
    using takeWhile_append2 [of key "\<lambda>c. c \<noteq> CHR 0x22", OF nk] by simp
  have kd: "dropWhile (\<lambda>c. c \<noteq> CHR 0x22) (key @ CHR 0x22 # CHR '':'' # CHR '' '' # str_int i @ rest)
       = CHR 0x22 # CHR '':'' # CHR '' '' # str_int i @ rest"
    using dropWhile_append2 [of key "\<lambda>c. c \<noteq> CHR 0x22", OF nk] by simp
  show ?thesis
    by (simp add: read_member_def k kd t d read_int_str_int)
qed

lemma read_body_dumps:
  "read_body (dumps_counts s e) = Some [(''success_count'', s), (''error_count'', e)]"
proof -
  have m2: "read_member ([CHR 0x22] @ ''error_count'' @ [CHR 0x22] @ '': '' @ str_int e @ ''}'')
     = Some ((''error_count'', e), ''}'')"
    by (rule read_member_dumps) (simp_all add: int_char_def is_digit_def)
  have m1: "read_member ([CHR 0x22] @ ''success_count'' @ [CHR 0x22] @ '': '' @ str_int s @
       ('', '' @ [CHR 0x22] @ ''error_count'' @ [CHR 0x22] @ '': '' @ str_int e @ ''}''))
     = Some ((''success_count'', s),
         '', '' @ [CHR 0x22] @ ''error_count'' @ [CHR 0x22] @ '': '' @ str_int e @ ''}'')"
    by (rule read_member_dumps) (simp_all add: int_char_def is_digit_def)
  from m1 m2 show ?thesis
    by (simp add: read_body_def dumps_counts_def)
qed

lemma str_nat_one: "str_nat (Suc 0) = ''1''" "str_nat 1 = ''1''"
  by (subst str_nat.simps, simp del: str_nat.simps)+

text \<open>
  C1. On every batch (an event whose \<^verbatim>\<open>Records\<close> are absent or have a length: a list,
  and also a dictionary or a string) the handler returns normally, with status code 200
  whatever the error counter is, and with a body that holds the two counters: read as
  JSON, the body is an object whose member \<^verbatim>\<open>success_count\<close> is the final
  \<open>success_count\<close> and whose member \<^verbatim>\<open>error_count\<close> is the final \<open>error_count\<close>, both
  as integers; errors show only in these counters.
\<close>

theorem handler_always_returns_200:
  assumes "has_len (event_records event)"
  shows "\<exists>response st.
     lambda_handler environ copy_object loads event = (Inr response, st) \<and>
     statusCode response = 200 \<and>
     read_body (body response) =
       Some [(''success_count'', success_count st), (''error_count'', error_count st)]"
  using lambda_handler_returns [OF assms, of environ copy_object loads]
  by (auto simp: Let_def read_body_dumps)

text \<open>
  A batch of two envelopes, the first a direct reference that is copied, the second
  without a \<^verbatim>\<open>body\<close>: one success, one error, status code 200, and the body
  \<^verbatim>\<open>{"success_count": 1, "error_count": 1}\<close>.
\<close>

theorem handler_always_returns_200_witness:
  "has_len (event_records [(''Records'', JArr [envelope ''m1'', JObj []])]) \<and>
   (\<exists>response st.
     lambda_handler sample_environ backend_ok loads_direct
       [(''Records'', JArr [envelope ''m1'', JObj []])] = (Inr response, st) \<and>
     statusCode response = 200 \<and>
     read_body (body response) =
       Some [(''success_count'', success_count st), (''error_count'', error_count st)]) \<and>
   fst (lambda_handler sample_environ backend_ok loads_direct
       [(''Records'', JArr [envelope ''m1'', JObj []])]) =
     Inr \<lparr>statusCode = 200,
          body = ''{'' @ [CHR 0x22] @ ''success_count'' @ [CHR 0x22] @ '': 1, '' @
            [CHR 0x22] @ ''error_count'' @ [CHR 0x22] @ '': 1}''\<rparr>"
proof -
  have h: "has_len (event_records [(''Records'', JArr [envelope ''m1'', JObj []])])"
    by (simp add: has_len_def event_records_def)
  have run: "fst (lambda_handler sample_environ backend_ok loads_direct
       [(''Records'', JArr [envelope ''m1'', JObj []])]) =
     Inr \<lparr>statusCode = 200,
          body = ''{'' @ [CHR 0x22] @ ''success_count'' @ [CHR 0x22] @ '': 1, '' @
            [CHR 0x22] @ ''error_count'' @ [CHR 0x22] @ '': 1}''\<rparr>"
    by (simp add: eval_defs dumps_counts_def str_int_def str_nat_one del: str_nat.simps)
  note returned =
    handler_always_returns_200 [OF h, of sample_environ backend_ok loads_direct]
  show ?thesis by (rule conjI [OF h conjI [OF returned run]])
qed

text \<open>
  C8. Total isolation: on every batch the handler returns a result, and the two counters
  together do not exceed the number of units of the batch, an inner record of a
  notification or an envelope of another form being one unit.
\<close>

theorem total_isolation:
  assumes "has_len (event_records event)"
  shows "\<exists>records response st.
           py_iter (event_records event) = Inr records \<and>
           lambda_handler environ copy_object loads event = (Inr response, st) \<and>
           success_count st + error_count st \<le> int (batch_units loads records)"
proof -
  from lambda_handler_returns [OF assms, of environ copy_object loads]
  obtain n xs where it: "py_iter (event_records event) = Inr xs"
    and lh: "lambda_handler environ copy_object loads event =
     (let st = records_loop environ copy_object loads xs
                 (logger INFO (Processing_SQS_messages n) initial_state)
      in (Inr \<lparr>statusCode = 200, body = dumps_counts (success_count st) (error_count st)\<rparr>,
      logger INFO (Processing_complete (success_count st) (error_count st)) st))"
    by blast
  from records_loop_counts [of environ copy_object loads xs
      "logger INFO (Processing_SQS_messages n) initial_state"]
  have "success_count (records_loop environ copy_object loads xs
            (logger INFO (Processing_SQS_messages n) initial_state)) +
        error_count (records_loop environ copy_object loads xs
            (logger INFO (Processing_SQS_messages n) initial_state))
        \<le> int (batch_units loads xs)"
    by (simp add: initial_state_def)
  with it lh show ?thesis by (simp add: Let_def)
qed

theorem total_isolation_witness:
  "has_len (event_records [(''Records'', JArr [envelope ''m1'', JObj []])]) \<and>
   (\<exists>records response st.
       py_iter (event_records [(''Records'', JArr [envelope ''m1'', JObj []])]) = Inr records \<and>
       lambda_handler sample_environ backend_ok (\<lambda>s. Inl JSONDecodeError)
         [(''Records'', JArr [envelope ''m1'', JObj []])] = (Inr response, st) \<and>
       success_count st + error_count st \<le> int (batch_units (\<lambda>s. Inl JSONDecodeError) records))"
proof -
  have h: "has_len (event_records [(''Records'', JArr [envelope ''m1'', JObj []])])"
    by (simp add: has_len_def event_records_def)
  from total_isolation [OF h, of sample_environ backend_ok "\<lambda>s. Inl JSONDecodeError"] h
  show ?thesis by simp
qed

section \<open>Copy failures\<close>

text \<open>
  An envelope that holds one reference, in either form, does what the copy of that
  reference does: a copy that returns is one success, a copy that raises leaves the
  \<^verbatim>\<open>try\<close>.
\<close>

lemma handle_single_reference:
  assumes "py_contains ''Records'' mb = Inr False \<and>
      direct_reference mb = Inr (b, k) \<and> py_truthy b \<and> py_truthy k \<or>
     (\<exists>kvs r. mb = JObj kvs \<and> map_of kvs ''Records'' = Some (JArr [r]) \<and>
        storage_tagged r \<and> s3_record_reference r = Inr (b, k))"
  shows "handle_message_body environ copy_object mb st =
     (case copy_s3_object environ copy_object b k st of
        (Inl e, st') \<Rightarrow> (Inl e, st')
      | (Inr _, st') \<Rightarrow> (Inr (), st'\<lparr>success_count := success_count st' + 1\<rparr>))"
  using assms
proof (elim disjE conjE exE)
  assume "py_contains ''Records'' mb = Inr False" "direct_reference mb = Inr (b, k)"
    "py_truthy b" "py_truthy k"
  then show ?thesis by (simp add: handle_message_body_def)
next
  fix kvs r
  assume "mb = JObj kvs" "map_of kvs ''Records'' = Some (JArr [r])"
    "storage_tagged r" "s3_record_reference r = Inr (b, k)"
  then show ?thesis
    by (auto simp: handle_message_body_def py_contains_obj storage_tagged_def
        simp del: py_contains.simps split: prod.splits sum.splits)
qed

text \<open>
  C2. \<open>copy_s3_object\<close> tells two classes of failure apart. When the backend raises a
  \<^verbatim>\<open>ClientError\<close> whose code is \<^verbatim>\<open>NoSuchKey\<close>, the function logs a warning and
  returns, and the caller counts a success and no error; when the backend raises anything
  else, the function logs at error level and raises it again, and the handler of the
  envelope counts an error and no success. The envelope holds one reference, as a direct
  reference or as a notification with one storage record.
\<close>

theorem copy_failure_classes:
  assumes env: "environ ''DESTINATION_BUCKET'' = Some d"
    and parsed: "parse_body loads sqs_record = Inr mb"
    and ref: "py_contains ''Records'' mb = Inr False \<and>
      direct_reference mb = Inr (b, k) \<and> py_truthy b \<and> py_truthy k \<or>
     (\<exists>kvs r. mb = JObj kvs \<and> map_of kvs ''Records'' = Some (JArr [r]) \<and>
        storage_tagged r \<and> s3_record_reference r = Inr (b, k))"
    and raised: "copy_object (copy_calls st)
        \<lparr>CopySource_Bucket = b, CopySource_Key = k, Bucket = d, Key = k,
         MetadataDirective = ''COPY''\<rparr> = Inl e"
  shows "if e = ClientError ''NoSuchKey''
    then fst (copy_s3_object environ copy_object b k st) = Inr () \<and>
         last (log_lines (snd (copy_s3_object environ copy_object b k st))) =
           (WARNING, Object_not_found k) \<and>
         success_count (process_record environ copy_object loads sqs_record st) =
           success_count st + 1 \<and>
         error_count (process_record environ copy_object loads sqs_record st) = error_count st
    else fst (copy_s3_object environ copy_object b k st) = Inl e \<and>
         fst (last (log_lines (snd (copy_s3_object environ copy_object b k st)))) = ERROR \<and>
         success_count (process_record environ copy_object loads sqs_record st) =
           success_count st \<and>
         error_count (process_record environ copy_object loads sqs_record st) =
           error_count st + 1"
proof -
  note h = handle_single_reference [OF ref, of environ copy_object st]
  show ?thesis
  proof (cases "e = ClientError ''NoSuchKey''")
    case True
    with env raised have c: "copy_s3_object environ copy_object b k st =
      (Inr (), logger WARNING (Object_not_found k)
         ((logger INFO (Copying b k d) st)\<lparr>copy_calls := copy_calls st @
            [\<lparr>CopySource_Bucket = b, CopySource_Key = k, Bucket = d, Key = k,
         MetadataDirective = ''COPY''\<rparr>]\<rparr>))"
      by (simp add: copy_s3_object_def Let_def)
    with True parsed h show ?thesis
      by (simp add: process_record_def)
  next
    case False
    with env raised have c: "\<exists>m. copy_s3_object environ copy_object b k st =
      (Inl e, logger ERROR m
         ((logger INFO (Copying b k d) st)\<lparr>copy_calls := copy_calls st @
            [\<lparr>CopySource_Bucket = b, CopySource_Key = k, Bucket = d, Key = k,
         MetadataDirective = ''COPY''\<rparr>]\<rparr>))"
      by (cases e) (auto simp: copy_s3_object_def Let_def)
    with False parsed h show ?thesis
      by (auto simp: process_record_def Let_def)
  qed
qed


text \<open>
  A direct reference, on a backend without the source object and on a backend that
  denies access.
\<close>

theorem copy_failure_classes_witness:
  "sample_environ ''DESTINATION_BUCKET'' = Some ''backup'' \<and>
   parse_body loads_direct (envelope ''m1'') = Inr (direct_body ''inbox'' ''folder/a.txt'') \<and>
   py_contains ''Records'' (direct_body ''inbox'' ''folder/a.txt'') = Inr False \<and>
   direct_reference (direct_body ''inbox'' ''folder/a.txt'') =
     Inr (JStr ''inbox'', JStr ''folder/a.txt'') \<and>
   success_count (process_record sample_environ backend_not_found loads_direct
                    (envelope ''m1'') initial_state) = 1 \<and>
   error_count (process_record sample_environ backend_not_found loads_direct
                    (envelope ''m1'') initial_state) = 0 \<and>
   success_count (process_record sample_environ backend_denied loads_direct
                    (envelope ''m1'') initial_state) = 0 \<and>
   error_count (process_record sample_environ backend_denied loads_direct
                    (envelope ''m1'') initial_state) = 1"
proof -
  have env: "sample_environ ''DESTINATION_BUCKET'' = Some ''backup''"
    by (simp add: sample_environ_def)
  have parsed: "parse_body loads_direct (envelope ''m1'') =
      Inr (direct_body ''inbox'' ''folder/a.txt'')"
    by (simp add: parse_body_def envelope_def loads_direct_def)
  have nr: "py_contains ''Records'' (direct_body ''inbox'' ''folder/a.txt'') = Inr False"
    by (simp add: direct_body_def)
  have dr: "direct_reference (direct_body ''inbox'' ''folder/a.txt'') =
      Inr (JStr ''inbox'', JStr ''folder/a.txt'')"
    by (simp add: direct_body_def direct_reference_def)
  have ref: "py_contains ''Records'' (direct_body ''inbox'' ''folder/a.txt'') = Inr False \<and>
      direct_reference (direct_body ''inbox'' ''folder/a.txt'') =
        Inr (JStr ''inbox'', JStr ''folder/a.txt'') \<and>
      py_truthy (JStr ''inbox'') \<and> py_truthy (JStr ''folder/a.txt'') \<or>
     (\<exists>kvs r. direct_body ''inbox'' ''folder/a.txt'' = JObj kvs \<and>
        map_of kvs ''Records'' = Some (JArr [r]) \<and>
        storage_tagged r \<and> s3_record_reference r = Inr (JStr ''inbox'', JStr ''folder/a.txt''))"
    using nr dr by simp
  have r1: "backend_not_found (copy_calls initial_state)
        \<lparr>CopySource_Bucket = JStr ''inbox'', CopySource_Key = JStr ''folder/a.txt'',
         Bucket = ''backup'', Key = JStr ''folder/a.txt'',
         MetadataDirective = ''COPY''\<rparr> = Inl (ClientError ''NoSuchKey'')"
    by (simp add: backend_not_found_def)
  have r2: "backend_denied (copy_calls initial_state)
        \<lparr>CopySource_Bucket = JStr ''inbox'', CopySource_Key = JStr ''folder/a.txt'',
         Bucket = ''backup'', Key = JStr ''folder/a.txt'',
         MetadataDirective = ''COPY''\<rparr> = Inl (ClientError ''AccessDenied'')"
    by (simp add: backend_denied_def)
  note inst = copy_failure_classes [where environ = sample_environ and d = "''backup''"
      and loads = loads_direct and sqs_record = "envelope ''m1''"
      and mb = "direct_body ''inbox'' ''folder/a.txt''"
      and b = "JStr ''inbox''" and k = "JStr ''folder/a.txt''" and st = initial_state]
  from inst [where copy_object = backend_not_found and e = "ClientError ''NoSuchKey''",
      OF env parsed ref r1]
    inst [where copy_object = backend_denied and e = "ClientError ''AccessDenied''",
      OF env parsed ref r2]
    env parsed nr dr
  show ?thesis by (simp add: initial_state_def)
qed

section \<open>The destination bucket\<close>

text \<open>
  When the copy of the first reference of an envelope raises, the envelope raises: the
  exception reaches the \<^verbatim>\<open>except\<close> of the handler.
\<close>

lemma handle_first_reference:
  assumes "py_contains ''Records'' mb = Inr False \<and>
      direct_reference mb = Inr (b, k) \<and> py_truthy b \<and> py_truthy k \<or>
     (\<exists>kvs r rest. mb = JObj kvs \<and> map_of kvs ''Records'' = Some (JArr (r # rest)) \<and>
        storage_tagged r \<and> s3_record_reference r = Inr (b, k))"
    and "copy_s3_object environ copy_object b k st = (Inl e, st')"
  shows "handle_message_body environ copy_object mb st = (Inl e, st')"
  using assms(1)
proof (elim disjE conjE exE)
  assume "py_contains ''Records'' mb = Inr False" "direct_reference mb = Inr (b, k)"
    "py_truthy b" "py_truthy k"
  with assms(2) show ?thesis by (simp add: handle_message_body_def)
next
  fix kvs r rest
  assume "mb = JObj kvs" "map_of kvs ''Records'' = Some (JArr (r # rest))"
    "storage_tagged r" "s3_record_reference r = Inr (b, k)"
  with assms(2) show ?thesis
    by (simp add: handle_message_body_def py_contains_obj storage_tagged_def
        del: py_contains.simps)
qed

text \<open>
  C4, as the specification has it: with \<^verbatim>\<open>DESTINATION_BUCKET\<close> unset, the
  \<^verbatim>\<open>KeyError\<close> of the first copy is caught nowhere and leaves the handler. It does
  not: on a batch of one direct reference the handler returns status code 200 with
  \<open>error_count = 1\<close>, and the log holds the line of the \<^verbatim>\<open>except\<close> clause.
\<close>

theorem unset_destination_counterexample:
  "fst (lambda_handler no_environ backend_ok loads_direct [(''Records'', JArr [envelope ''m1''])])
     \<noteq> Inl (KeyError ''DESTINATION_BUCKET'') \<and>
   fst (lambda_handler no_environ backend_ok loads_direct [(''Records'', JArr [envelope ''m1''])])
     = Inr \<lparr>statusCode = 200, body = dumps_counts 0 1\<rparr> \<and>
   error_count (snd (lambda_handler no_environ backend_ok loads_direct
     [(''Records'', JArr [envelope ''m1''])])) = 1 \<and>
   log_lines (snd (lambda_handler no_environ backend_ok loads_direct
     [(''Records'', JArr [envelope ''m1''])])) =
     [(INFO, Processing_SQS_messages 1),
      (ERROR, Error_processing_message (KeyError ''DESTINATION_BUCKET'')),
      (INFO, Processing_complete 0 1)]"
  by (simp add: eval_defs)


text \<open>
  C4, amended. With \<^verbatim>\<open>DESTINATION_BUCKET\<close> unset, \<open>copy_s3_object\<close> raises
  \<^verbatim>\<open>KeyError\<close> before its own \<^verbatim>\<open>try\<close>: it writes no log line and sends no request.
  The \<^verbatim>\<open>except Exception\<close> of the handler catches the error, logs it and counts one
  error for the envelope; a batch of that one envelope returns status code 200 with
  \<open>success_count = 0\<close> and \<open>error_count = 1\<close>.
\<close>

theorem unset_destination_is_counted:
  assumes env: "environ ''DESTINATION_BUCKET'' = None"
    and parsed: "parse_body loads sqs_record = Inr mb"
    and ref: "py_contains ''Records'' mb = Inr False \<and>
      direct_reference mb = Inr (b, k) \<and> py_truthy b \<and> py_truthy k \<or>
     (\<exists>kvs r rest. mb = JObj kvs \<and> map_of kvs ''Records'' = Some (JArr (r # rest)) \<and>
        storage_tagged r \<and> s3_record_reference r = Inr (b, k))"
  shows "copy_s3_object environ copy_object b k st = (Inl (KeyError ''DESTINATION_BUCKET''), st) \<and>
    process_record environ copy_object loads sqs_record st =
      (logger ERROR (Error_processing_message (KeyError ''DESTINATION_BUCKET'')) st)
        \<lparr>error_count := error_count st + 1\<rparr> \<and>
    fst (lambda_handler environ copy_object loads [(''Records'', JArr [sqs_record])]) =
      Inr \<lparr>statusCode = 200, body = dumps_counts 0 1\<rparr>"
proof -
  have c: "\<And>st. copy_s3_object environ copy_object b k st =
      (Inl (KeyError ''DESTINATION_BUCKET''), st)"
    using env by (simp add: copy_s3_object_def)
  have p: "\<And>st. process_record environ copy_object loads sqs_record st =
      (logger ERROR (Error_processing_message (KeyError ''DESTINATION_BUCKET'')) st)
        \<lparr>error_count := error_count st + 1\<rparr>"
    using handle_first_reference [OF ref c] parsed
    by (simp add: process_record_def Let_def)
  show ?thesis
    by (simp add: c p lambda_handler_def event_records_def Let_def initial_state_def)
qed

theorem unset_destination_is_counted_witness:
  "no_environ ''DESTINATION_BUCKET'' = None \<and>
   parse_body loads_direct (envelope ''m1'') = Inr (direct_body ''inbox'' ''folder/a.txt'') \<and>
   py_contains ''Records'' (direct_body ''inbox'' ''folder/a.txt'') = Inr False \<and>
   direct_reference (direct_body ''inbox'' ''folder/a.txt'') =
     Inr (JStr ''inbox'', JStr ''folder/a.txt'') \<and>
   copy_s3_object no_environ backend_ok (JStr ''inbox'') (JStr ''folder/a.txt'') initial_state =
     (Inl (KeyError ''DESTINATION_BUCKET''), initial_state) \<and>
   error_count (process_record no_environ backend_ok loads_direct (envelope ''m1'')
      initial_state) = 1 \<and>
   fst (lambda_handler no_environ backend_ok loads_direct [(''Records'', JArr [envelope ''m1''])]) =
      Inr \<lparr>statusCode = 200, body = dumps_counts 0 1\<rparr>"
proof -
  have env: "no_environ ''DESTINATION_BUCKET'' = None"
    by (simp add: no_environ_def)
  have parsed: "parse_body loads_direct (envelope ''m1'') =
      Inr (direct_body ''inbox'' ''folder/a.txt'')"
    by (simp add: parse_body_def envelope_def loads_direct_def)
  have nr: "py_contains ''Records'' (direct_body ''inbox'' ''folder/a.txt'') = Inr False"
    by (simp add: direct_body_def)
  have dr: "direct_reference (direct_body ''inbox'' ''folder/a.txt'') =
      Inr (JStr ''inbox'', JStr ''folder/a.txt'')"
    by (simp add: direct_body_def direct_reference_def)
  have ref: "py_contains ''Records'' (direct_body ''inbox'' ''folder/a.txt'') = Inr False \<and>
      direct_reference (direct_body ''inbox'' ''folder/a.txt'') =
        Inr (JStr ''inbox'', JStr ''folder/a.txt'') \<and>
      py_truthy (JStr ''inbox'') \<and> py_truthy (JStr ''folder/a.txt'') \<or>
     (\<exists>kvs r rest. direct_body ''inbox'' ''folder/a.txt'' = JObj kvs \<and>
        map_of kvs ''Records'' = Some (JArr (r # rest)) \<and>
        storage_tagged r \<and> s3_record_reference r = Inr (JStr ''inbox'', JStr ''folder/a.txt''))"
    using nr dr by simp
  from unset_destination_is_counted [where environ = no_environ and copy_object = backend_ok
      and st = initial_state, OF env parsed ref]
    env parsed nr dr
  show ?thesis by (simp add: initial_state_def)
qed

section \<open>The requests sent to the backend\<close>

text \<open>
  A call of \<open>copy_s3_object\<close> sends at most one request, and every step of the handler
  keeps the requests sent so far well formed.
\<close>

lemma copy_s3_object_calls:
  "copy_calls (snd (copy_s3_object environ copy_object b k st)) =
     copy_calls st @
       (case environ ''DESTINATION_BUCKET'' of
          None \<Rightarrow> []
        | Some d \<Rightarrow> [\<lparr>CopySource_Bucket = b, CopySource_Key = k, Bucket = d, Key = k,
                       MetadataDirective = ''COPY''\<rparr>])"
  by (auto simp: copy_s3_object_def Let_def split: option.splits sum.splits exn.splits)

lemma copy_s3_object_keeps:
  assumes "\<forall>req \<in> set (copy_calls st). copies_to_same_key environ req"
    and "copy_s3_object environ copy_object b k st = (r, st')"
  shows "\<forall>req \<in> set (copy_calls st'). copies_to_same_key environ req"
proof -
  from assms(2) have "copy_calls st' = copy_calls (snd (copy_s3_object environ copy_object b k st))"
    by simp
  with assms(1) show ?thesis
    by (auto simp: copy_s3_object_calls copies_to_same_key_def split: option.splits)
qed

lemma s3_records_loop_keeps:
  assumes "\<forall>req \<in> set (copy_calls st). copies_to_same_key environ req"
    and "s3_records_loop environ copy_object xs st = (r, st')"
  shows "\<forall>req \<in> set (copy_calls st'). copies_to_same_key environ req"
  using assms
proof (induction xs arbitrary: st)
  case Nil
  then show ?case by simp
next
  case (Cons x xs)
  show ?case
  proof (cases "py_get x ''eventSource'' JNull")
    case (Inl e)
    with Cons.prems show ?thesis by simp
  next
    case (Inr src)
    show ?thesis
    proof (cases "src = JStr ''aws:s3''")
      case False
      with Inr Cons.prems have "s3_records_loop environ copy_object xs st = (r, st')" by simp
      from Cons.IH [OF Cons.prems(1) this] show ?thesis .
    next
      case True
      show ?thesis
      proof (cases "s3_record_reference x")
        case (Inl e)
        with Inr True Cons.prems show ?thesis by simp
      next
        case ref: (Inr bk)
        obtain b k where bk: "bk = (b, k)" by (cases bk)
        obtain r1 st1 where c: "copy_s3_object environ copy_object b k st = (r1, st1)"
          by (cases "copy_s3_object environ copy_object b k st")
        note k1 = copy_s3_object_keeps [OF Cons.prems(1) c]
        show ?thesis
        proof (cases r1)
          case (Inl e)
          with Inr True ref bk c Cons.prems k1 show ?thesis by simp
        next
          case r1: (Inr u)
          with Inr True ref bk c Cons.prems
          have l: "s3_records_loop environ copy_object xs
                  (st1\<lparr>success_count := success_count st1 + 1\<rparr>) = (r, st')"
            by simp
          from k1 have "\<forall>req \<in> set (copy_calls (st1\<lparr>success_count := success_count st1 + 1\<rparr>)).
              copies_to_same_key environ req"
            by simp
          from Cons.IH [OF this l] show ?thesis .
        qed
      qed
    qed
  qed
qed

lemma handle_message_body_keeps:
  assumes "\<forall>req \<in> set (copy_calls st). copies_to_same_key environ req"
    and "handle_message_body environ copy_object mb st = (r, st')"
  shows "\<forall>req \<in> set (copy_calls st'). copies_to_same_key environ req"
proof (cases "py_contains ''Records'' mb")
  case (Inl e)
  with assms show ?thesis by (simp add: handle_message_body_def)
next
  case (Inr has)
  show ?thesis
  proof (cases has)
    case True
    show ?thesis
    proof (cases "py_then (py_getitem mb ''Records'') py_iter")
      case (Inl e)
      with Inr True assms show ?thesis
        by (auto simp: handle_message_body_def split: sum.splits)
    next
      case it: (Inr xs)
      with Inr True assms have "s3_records_loop environ copy_object xs st = (r, st')"
        by (auto simp: handle_message_body_def split: sum.splits)
      from s3_records_loop_keeps [OF assms(1) this] show ?thesis .
    qed
  next
    case False
    show ?thesis
    proof (cases "direct_reference mb")
      case (Inl e)
      with Inr False assms show ?thesis by (simp add: handle_message_body_def)
    next
      case ref: (Inr bk)
      obtain b k where bk: "bk = (b, k)" by (cases bk)
      obtain r1 st1 where c: "copy_s3_object environ copy_object b k st = (r1, st1)"
        by (cases "copy_s3_object environ copy_object b k st")
      note k1 = copy_s3_object_keeps [OF assms(1) c]
      from Inr False ref bk c k1 assms show ?thesis
        by (cases r1) (auto simp: handle_message_body_def Let_def split: if_splits)
    qed
  qed
qed

lemma process_record_keeps:
  assumes "\<forall>req \<in> set (copy_calls st). copies_to_same_key environ req"
  shows "\<forall>req \<in> set (copy_calls (process_record environ copy_object loads x st)).
           copies_to_same_key environ req"
proof (cases "parse_body loads x")
  case (Inl e)
  with assms show ?thesis by (simp add: process_record_def Let_def)
next
  case (Inr mb)
  obtain r st' where h: "handle_message_body environ copy_object mb st = (r, st')"
    by (cases "handle_message_body environ copy_object mb st")
  from handle_message_body_keeps [OF assms h] Inr h show ?thesis
    by (cases r) (simp_all add: process_record_def Let_def)
qed

lemma records_loop_keeps:
  assumes "\<forall>req \<in> set (copy_calls st). copies_to_same_key environ req"
  shows "\<forall>req \<in> set (copy_calls (records_loop environ copy_object loads xs st)).
           copies_to_same_key environ req"
  using assms
proof (induction xs arbitrary: st)
  case Nil
  then show ?case by simp
next
  case (Cons x xs)
  from Cons.IH [OF process_record_keeps [OF Cons.prems]] show ?case by simp
qed

text \<open>
  C5. A copy of \<open>(b, k)\<close> sends one request, from bucket \<open>b\<close> and key \<open>k\<close> to the
  destination bucket under the same key \<open>k\<close>, with \<^verbatim>\<open>MetadataDirective='COPY'\<close> (none
  when the destination is not configured); and every request that an invocation sends
  goes to the configured destination bucket, under the key of its source, with the
  metadata copied.
\<close>

theorem copies_keep_the_key:
  "copy_calls (snd (copy_s3_object environ copy_object b k st)) =
     copy_calls st @
       (case environ ''DESTINATION_BUCKET'' of
          None \<Rightarrow> []
        | Some d \<Rightarrow> [\<lparr>CopySource_Bucket = b, CopySource_Key = k, Bucket = d, Key = k,
                       MetadataDirective = ''COPY''\<rparr>]) \<and>
   (\<forall>req \<in> set (copy_calls (snd (lambda_handler environ copy_object loads event))).
      copies_to_same_key environ req)"
proof
  show "copy_calls (snd (copy_s3_object environ copy_object b k st)) =
     copy_calls st @
       (case environ ''DESTINATION_BUCKET'' of
          None \<Rightarrow> []
        | Some d \<Rightarrow> [\<lparr>CopySource_Bucket = b, CopySource_Key = k, Bucket = d, Key = k,
                       MetadataDirective = ''COPY''\<rparr>])"
    by (rule copy_s3_object_calls)
next
  have init: "\<And>n. \<forall>req \<in> set (copy_calls (logger INFO (Processing_SQS_messages n) initial_state)).
      copies_to_same_key environ req"
    by (simp add: initial_state_def)
  show "\<forall>req \<in> set (copy_calls (snd (lambda_handler environ copy_object loads event))).
      copies_to_same_key environ req"
    using records_loop_keeps [OF init, where copy_object = copy_object and loads = loads]
    by (auto simp: lambda_handler_def Let_def initial_state_def split: sum.splits)
qed

text \<open>The source key \<^verbatim>\<open>folder/a.txt\<close> is the destination key \<^verbatim>\<open>folder/a.txt\<close>.\<close>

theorem copies_keep_the_key_witness:
  "copy_calls (snd (lambda_handler sample_environ backend_ok loads_direct
      [(''Records'', JArr [envelope ''m1''])])) =
     [\<lparr>CopySource_Bucket = JStr ''inbox'', CopySource_Key = JStr ''folder/a.txt'',
       Bucket = ''backup'', Key = JStr ''folder/a.txt'', MetadataDirective = ''COPY''\<rparr>] \<and>
   copies_to_same_key sample_environ
     \<lparr>CopySource_Bucket = JStr ''inbox'', CopySource_Key = JStr ''folder/a.txt'',
       Bucket = ''backup'', Key = JStr ''folder/a.txt'', MetadataDirective = ''COPY''\<rparr>"
proof -
  have c: "copy_calls (snd (lambda_handler sample_environ backend_ok loads_direct
      [(''Records'', JArr [envelope ''m1''])])) =
     [\<lparr>CopySource_Bucket = JStr ''inbox'', CopySource_Key = JStr ''folder/a.txt'',
       Bucket = ''backup'', Key = JStr ''folder/a.txt'', MetadataDirective = ''COPY''\<rparr>]"
    by (simp add: eval_defs)
  from copies_keep_the_key [of sample_environ backend_ok JNull JNull initial_state loads_direct
      "[(''Records'', JArr [envelope ''m1''])]"]
  have "\<forall>req \<in> set (copy_calls (snd (lambda_handler sample_environ backend_ok loads_direct
      [(''Records'', JArr [envelope ''m1''])]))). copies_to_same_key sample_environ req"
    by (rule conjunct2)
  with c show ?thesis by simp
qed

section \<open>The inner records of a notification\<close>

text \<open>
  The loop over two lists in a row is the loop over the first and then, unless it
  raised, over the second; and the loop steps over a record whose event source is not
  \<^verbatim>\<open>aws:s3\<close>.
\<close>

lemma s3_records_loop_append:
  "s3_records_loop environ copy_object (xs @ ys) st =
     (case s3_records_loop environ copy_object xs st of
        (Inl e, st') \<Rightarrow> (Inl e, st')
      | (Inr u, st') \<Rightarrow> s3_records_loop environ copy_object ys st')"
  by (induction xs arbitrary: st) (auto split: sum.splits prod.splits)

lemma s3_records_loop_skip:
  assumes "py_get s3_record ''eventSource'' JNull = Inr src" "src \<noteq> JStr ''aws:s3''"
  shows "s3_records_loop environ copy_object (s3_record # rest) st =
         s3_records_loop environ copy_object rest st"
  using assms by simp

text \<open>
  C7. An inner record whose \<^verbatim>\<open>eventSource\<close> is not \<^verbatim>\<open>aws:s3\<close> (or that has none) is
  skipped in silence: on its own it changes nothing, neither counter, the log nor the
  requests, and anywhere in a notification the loop does what it does without it.
\<close>

theorem other_event_sources_are_skipped:
  assumes "py_get s3_record ''eventSource'' JNull = Inr src" and "src \<noteq> JStr ''aws:s3''"
  shows "s3_records_loop environ copy_object [s3_record] st = (Inr (), st) \<and>
    s3_records_loop environ copy_object (before @ s3_record # after) st =
    s3_records_loop environ copy_object (before @ after) st"
proof
  from assms show "s3_records_loop environ copy_object [s3_record] st = (Inr (), st)"
    by simp
next
  have "s3_records_loop environ copy_object (before @ s3_record # after) st =
     (case s3_records_loop environ copy_object before st of
        (Inl e, st') \<Rightarrow> (Inl e, st')
      | (Inr u, st') \<Rightarrow> s3_records_loop environ copy_object (s3_record # after) st')"
    by (rule s3_records_loop_append)
  also have "\<dots> =
     (case s3_records_loop environ copy_object before st of
        (Inl e, st') \<Rightarrow> (Inl e, st')
      | (Inr u, st') \<Rightarrow> s3_records_loop environ copy_object after st')"
    by (simp only: s3_records_loop_skip [OF assms])
  also have "\<dots> = s3_records_loop environ copy_object (before @ after) st"
    by (rule s3_records_loop_append [symmetric])
  finally show "s3_records_loop environ copy_object (before @ s3_record # after) st =
    s3_records_loop environ copy_object (before @ after) st" .
qed

text \<open>
  A record of another service between two storage records: the two are copied, as they
  are without it.
\<close>

theorem other_event_sources_are_skipped_witness:
  "py_get sns_record ''eventSource'' JNull = Inr (JStr ''aws:sns'') \<and>
   JStr ''aws:sns'' \<noteq> JStr ''aws:s3'' \<and>
   s3_records_loop sample_environ backend_ok [sns_record] initial_state =
     (Inr (), initial_state) \<and>
   s3_records_loop sample_environ backend_ok
     ([storage_record ''inbox'' ''a.txt''] @ sns_record # [storage_record ''inbox'' ''b.txt''])
     initial_state =
   s3_records_loop sample_environ backend_ok
     ([storage_record ''inbox'' ''a.txt''] @ [storage_record ''inbox'' ''b.txt''])
     initial_state \<and>
   success_count (snd (s3_records_loop sample_environ backend_ok
     ([storage_record ''inbox'' ''a.txt''] @ sns_record # [storage_record ''inbox'' ''b.txt''])
     initial_state)) = 2"
proof -
  have a: "py_get sns_record ''eventSource'' JNull = Inr (JStr ''aws:sns'')"
    by (simp add: sns_record_def)
  have b: "JStr ''aws:sns'' \<noteq> JStr ''aws:s3''" by simp
  have c: "success_count (snd (s3_records_loop sample_environ backend_ok
     ([storage_record ''inbox'' ''a.txt''] @ [storage_record ''inbox'' ''b.txt''])
     initial_state)) = 2"
    by (simp add: eval_defs)
  from other_event_sources_are_skipped [OF a b, of sample_environ backend_ok initial_state
      "[storage_record ''inbox'' ''a.txt'']" "[storage_record ''inbox'' ''b.txt'']"] a b c
  show ?thesis by simp
qed

section \<open>Bodies that are not objects\<close>

text \<open>
  A body that is not a dictionary raises in the \<^verbatim>\<open>try\<close> before any copy: at
  \<^verbatim>\<open>'Records' in message_body\<close>, at \<^verbatim>\<open>message_body['Records']\<close> or at
  \<^verbatim>\<open>message_body.get\<close>.
\<close>

lemma handle_non_object:
  assumes "\<forall>kvs. mb \<noteq> JObj kvs"
  shows "\<exists>e. handle_message_body environ copy_object mb st = (Inl e, st)"
  using assms
  by (cases mb) (auto simp: handle_message_body_def direct_reference_def split: bool.splits)

text \<open>
  C10. An envelope whose body parses to a value that is not an object counts one error
  and nothing else: the state after it is the state before it with one more error and
  the log line of the \<^verbatim>\<open>except\<close> clause (no success, no request), and the loop goes
  on with the rest of the batch from that state.
\<close>

theorem non_object_body_is_one_error:
  assumes "parse_body loads sqs_record = Inr mb" and "\<forall>kvs. mb \<noteq> JObj kvs"
  shows "\<exists>e. process_record environ copy_object loads sqs_record st =
           (logger ERROR (Error_processing_message e) st)\<lparr>error_count := error_count st + 1\<rparr> \<and>
         records_loop environ copy_object loads (sqs_record # rest) st =
           records_loop environ copy_object loads rest
             ((logger ERROR (Error_processing_message e) st)
                \<lparr>error_count := error_count st + 1\<rparr>)"
proof -
  from handle_non_object [OF assms(2)] obtain e
    where "handle_message_body environ copy_object mb st = (Inl e, st)" by blast
  with assms(1) have "process_record environ copy_object loads sqs_record st =
           (logger ERROR (Error_processing_message e) st)\<lparr>error_count := error_count st + 1\<rparr>"
    by (simp add: process_record_def Let_def)
  then show ?thesis by auto
qed

text \<open>Two envelopes whose bodies are JSON arrays: two errors, no request.\<close>

theorem non_object_body_is_one_error_witness:
  "parse_body loads_array (envelope ''m1'') = Inr (JArr [JInt 1, JInt 2]) \<and>
   process_record sample_environ backend_ok loads_array (envelope ''m1'') initial_state =
     (logger ERROR (Error_processing_message AttributeError) initial_state)
       \<lparr>error_count := 1\<rparr> \<and>
   (\<exists>e. records_loop sample_environ backend_ok loads_array [envelope ''m1'', envelope ''m2'']
          initial_state =
        records_loop sample_environ backend_ok loads_array [envelope ''m2'']
          ((logger ERROR (Error_processing_message e) initial_state)
                \<lparr>error_count := error_count initial_state + 1\<rparr>)) \<and>
   error_count (records_loop sample_environ backend_ok loads_array
      [envelope ''m1'', envelope ''m2''] initial_state) = 2 \<and>
   copy_calls (records_loop sample_environ backend_ok loads_array
      [envelope ''m1'', envelope ''m2''] initial_state) = []"
proof -
  have a: "parse_body loads_array (envelope ''m1'') = Inr (JArr [JInt 1, JInt 2])"
    by (simp add: parse_body_def envelope_def loads_array_def)
  have b: "\<forall>kvs. JArr [JInt 1, JInt 2] \<noteq> JObj kvs" by simp
  have c: "process_record sample_environ backend_ok loads_array (envelope ''m1'') initial_state =
     (logger ERROR (Error_processing_message AttributeError) initial_state)
       \<lparr>error_count := 1\<rparr>"
    by (simp add: eval_defs)
  have d: "error_count (records_loop sample_environ backend_ok loads_array
      [envelope ''m1'', envelope ''m2''] initial_state) = 2 \<and>
   copy_calls (records_loop sample_environ backend_ok loads_array
      [envelope ''m1'', envelope ''m2''] initial_state) = []"
    by (simp add: eval_defs)
  from non_object_body_is_one_error [OF a b, of sample_environ backend_ok initial_state
      "[envelope ''m2'']"] a c d
  show ?thesis by blast
qed

section \<open>A failure among the inner records\<close>

text \<open>
  A loop that runs to its end has counted one success for every storage record, and no
  error.
\<close>

lemma s3_records_loop_success:
  "s3_records_loop environ copy_object xs st = (Inr u, st') \<Longrightarrow>
     success_count st' = success_count st + int (length (filter storage_tagged xs)) \<and>
     error_count st' = error_count st"
proof (induction xs arbitrary: st)
  case Nil
  then show ?case by auto
next
  case (Cons x xs)
  show ?case
  proof (cases "py_get x ''eventSource'' JNull")
    case (Inl e)
    with Cons.prems show ?thesis by auto
  next
    case (Inr src)
    show ?thesis
    proof (cases "src = JStr ''aws:s3''")
      case False
      with Inr Cons.prems have "s3_records_loop environ copy_object xs st = (Inr u, st')" by simp
      from Cons.IH [OF this] Inr False show ?thesis by (simp add: storage_tagged_def)
    next
      case True
      show ?thesis
      proof (cases "s3_record_reference x")
        case (Inl e)
        with Inr True Cons.prems show ?thesis by auto
      next
        case ref: (Inr bk)
        obtain b k where bk: "bk = (b, k)" by (cases bk)
        obtain r1 st1 where c: "copy_s3_object environ copy_object b k st = (r1, st1)"
          by (cases "copy_s3_object environ copy_object b k st")
        note cc = copy_s3_object_counts [OF c]
        show ?thesis
        proof (cases r1)
          case (Inl e)
          with Inr True ref bk c Cons.prems show ?thesis by auto
        next
          case r1: (Inr v)
          with Inr True ref bk c Cons.prems
          have "s3_records_loop environ copy_object xs
                  (st1\<lparr>success_count := success_count st1 + 1\<rparr>) = (Inr u, st')"
            by simp
          from Cons.IH [OF this] cc Inr True show ?thesis by (simp add: storage_tagged_def)
        qed
      qed
    qed
  qed
qed

text \<open>
  C3, as the specification has it: every storage record of a notification is counted on
  its own, and a failure on one does not keep the others from being processed. It does:
  in a notification whose first record has no \<^verbatim>\<open>s3\<close> field and whose second is
  complete, the \<^verbatim>\<open>KeyError\<close> of the first leaves the loop, so the envelope counts one
  error, no success and sends no request, where records counted on their own give one
  error, one success and one request.
\<close>

theorem inner_records_not_independent_counterexample:
  "success_count (process_record sample_environ backend_ok loads_broken_first (envelope ''m1'')
     initial_state) = 0 \<and>
   error_count (process_record sample_environ backend_ok loads_broken_first (envelope ''m1'')
     initial_state) = 1 \<and>
   copy_calls (process_record sample_environ backend_ok loads_broken_first (envelope ''m1'')
     initial_state) = [] \<and>
   success_count (independent_records_loop sample_environ backend_ok
     [broken_record, storage_record ''inbox'' ''folder/a.txt''] initial_state) = 1 \<and>
   error_count (independent_records_loop sample_environ backend_ok
     [broken_record, storage_record ''inbox'' ''folder/a.txt''] initial_state) = 1 \<and>
   copy_calls (independent_records_loop sample_environ backend_ok
     [broken_record, storage_record ''inbox'' ''folder/a.txt''] initial_state) =
     [\<lparr>CopySource_Bucket = JStr ''inbox'', CopySource_Key = JStr ''folder/a.txt'',
       Bucket = ''backup'', Key = JStr ''folder/a.txt'', MetadataDirective = ''COPY''\<rparr>]"
  by (simp add: eval_defs)


text \<open>
  C3, amended. The inner records are processed in order up to the first that raises.
  Every storage record before it counts one success; the one that raises ends the
  envelope with exactly one error, and the records after it are not processed: the loop
  does what it does on the notification cut after that record. A notification that is
  processed to its end counts one success for each of its storage records and no error.
  Here \<open>passed\<close> are the records processed without an exception, and \<open>rest\<close> is empty
  or begins with the record that raises.
\<close>

theorem inner_records_until_first_failure:
  assumes parsed: "parse_body loads sqs_record = Inr (JObj kvs)"
    and recs: "map_of kvs ''Records'' = Some rs"
    and items: "py_iter rs = Inr (passed @ rest)"
    and ok: "s3_records_loop environ copy_object passed st = (Inr (), st1)"
    and stop: "rest = [] \<or>
       (\<exists>e st2. s3_records_loop environ copy_object (take 1 rest) st1 = (Inl e, st2))"
  shows "success_count (process_record environ copy_object loads sqs_record st) =
           success_count st + int (length (filter storage_tagged passed)) \<and>
         error_count (process_record environ copy_object loads sqs_record st) =
           error_count st + (if rest = [] then 0 else 1) \<and>
         s3_records_loop environ copy_object (passed @ rest) st =
           s3_records_loop environ copy_object (passed @ take 1 rest) st"
proof -
  note s1 = s3_records_loop_success [OF ok]
  have h: "handle_message_body environ copy_object (JObj kvs) st =
      s3_records_loop environ copy_object (passed @ rest) st"
    using recs items
    by (simp add: handle_message_body_def py_contains_obj del: py_contains.simps)
  have app: "\<And>ys. s3_records_loop environ copy_object (passed @ ys) st =
      s3_records_loop environ copy_object ys st1"
    using ok by (simp add: s3_records_loop_append)
  from stop show ?thesis
  proof
    assume "rest = []"
    with parsed h ok s1 show ?thesis
      by (simp add: process_record_def)
  next
    assume "\<exists>e st2. s3_records_loop environ copy_object (take 1 rest) st1 = (Inl e, st2)"
    then obtain e st2
      where f: "s3_records_loop environ copy_object (take 1 rest) st1 = (Inl e, st2)"
      by blast
    then have ne: "rest \<noteq> []" by auto
    from s3_records_loop_counts [OF f] ne
    have c2: "success_count st2 = success_count st1" "error_count st2 = error_count st1"
      by (auto simp: Suc_leI)
    have "s3_records_loop environ copy_object (take 1 rest @ drop 1 rest) st1 = (Inl e, st2)"
      using f by (simp only: s3_records_loop_append) simp
    then have whole: "s3_records_loop environ copy_object rest st1 = (Inl e, st2)"
      by simp
    from parsed h app [of rest] app [of "take 1 rest"] whole f c2 s1 ne show ?thesis
      by (simp add: process_record_def Let_def)
  qed
qed


text \<open>
  Three storage records, all copied: three successes. A record that raises before a
  complete one: one error, and the loop is the loop on the first record alone.
\<close>

theorem inner_records_until_first_failure_witness:
  "success_count (process_record sample_environ backend_ok loads_three_records (envelope ''m1'')
     initial_state) = 3 \<and>
   error_count (process_record sample_environ backend_ok loads_three_records (envelope ''m1'')
     initial_state) = 0 \<and>
   s3_records_loop sample_environ backend_ok [] initial_state = (Inr (), initial_state) \<and>
   s3_records_loop sample_environ backend_ok
     (take 1 [broken_record, storage_record ''inbox'' ''folder/a.txt'']) initial_state =
     (Inl (KeyError ''s3''), initial_state) \<and>
   success_count (process_record sample_environ backend_ok loads_broken_first (envelope ''m1'')
     initial_state) = 0 \<and>
   error_count (process_record sample_environ backend_ok loads_broken_first (envelope ''m1'')
     initial_state) = 1 \<and>
   s3_records_loop sample_environ backend_ok
     [broken_record, storage_record ''inbox'' ''folder/a.txt''] initial_state =
   s3_records_loop sample_environ backend_ok [broken_record] initial_state"
proof -
  let ?three = "[storage_record ''inbox'' ''a.txt'', storage_record ''inbox'' ''b.txt'',
                 storage_record ''inbox'' ''c.txt'']"
  let ?two = "[broken_record, storage_record ''inbox'' ''folder/a.txt'']"
  have p3: "parse_body loads_three_records (envelope ''m1'') =
      Inr (JObj [(''Records'', JArr ?three)])"
    by (simp add: parse_body_def envelope_def loads_three_records_def wrapped_body_def)
  have r3: "map_of [(''Records'', JArr ?three)] ''Records'' = Some (JArr ?three)" by simp
  have i3: "py_iter (JArr ?three) = Inr (?three @ [])" by simp
  obtain st1 where ok3: "s3_records_loop sample_environ backend_ok ?three initial_state =
      (Inr (), st1)"
    by (simp add: eval_defs)
  have stop3: "([]::json list) = [] \<or>
       (\<exists>e st2. s3_records_loop sample_environ backend_ok (take 1 []) st1 = (Inl e, st2))"
    by simp
  have t3: "int (length (filter storage_tagged ?three)) = 3"
    by (simp add: storage_tagged_def storage_record_def)
  have p2: "parse_body loads_broken_first (envelope ''m1'') =
      Inr (JObj [(''Records'', JArr ?two)])"
    by (simp add: parse_body_def envelope_def loads_broken_first_def wrapped_body_def)
  have r2: "map_of [(''Records'', JArr ?two)] ''Records'' = Some (JArr ?two)" by simp
  have i2: "py_iter (JArr ?two) = Inr ([] @ ?two)" by simp
  have ok2: "s3_records_loop sample_environ backend_ok [] initial_state = (Inr (), initial_state)"
    by simp
  have f2: "s3_records_loop sample_environ backend_ok (take 1 ?two) initial_state =
     (Inl (KeyError ''s3''), initial_state)"
    by (simp add: broken_record_def s3_record_reference_def)
  then have stop2: "?two = [] \<or>
       (\<exists>e st2. s3_records_loop sample_environ backend_ok (take 1 ?two) initial_state =
          (Inl e, st2))"
    by blast
  from inner_records_until_first_failure [OF p3 r3 i3 ok3 stop3]
    inner_records_until_first_failure [OF p2 r2 i2 ok2 stop2] t3 ok2 f2
  show ?thesis by (simp add: initial_state_def)
qed

section \<open>Direct references that are incomplete\<close>

text \<open>
  The two chained \<^verbatim>\<open>.get\<close> calls of the direct form, on a body that is an object. The
  default \<^verbatim>\<open>{}\<close> stands in for a field that is absent only: a field that is there and
  is not an object (\<^verbatim>\<open>null\<close>, a string, a number, a list) has no \<^verbatim>\<open>.get\<close>.
\<close>

lemma py_then_assoc:
  "py_then (py_then m f) g = py_then m (\<lambda>x. py_then (f x) g)"
  by (cases m) simp_all

lemma get_nested:
  "py_then (py_get (JObj kvs) k (JObj [])) (\<lambda>b. py_get b n JNull) =
      (if present_not_object (map_of kvs k) then Inl AttributeError
       else Inr (case nested_field kvs k n of None \<Rightarrow> JNull | Some v \<Rightarrow> v))"
proof (cases "map_of kvs k")
  case None
  then show ?thesis by (simp add: present_not_object_def nested_field_def)
next
  case (Some v)
  then show ?thesis
    by (cases v) (simp_all add: present_not_object_def nested_field_def split: option.splits)
qed

lemma direct_reference_obj:
  "direct_reference (JObj kvs) =
    (if present_not_object (map_of kvs ''bucket'') \<or> present_not_object (map_of kvs ''object'')
     then Inl AttributeError
     else Inr (case nested_field kvs ''bucket'' ''name'' of None \<Rightarrow> JNull | Some v \<Rightarrow> v,
               case nested_field kvs ''object'' ''key'' of None \<Rightarrow> JNull | Some v \<Rightarrow> v))"
proof -
  have "direct_reference (JObj kvs) =
    py_then (py_then (py_get (JObj kvs) ''bucket'' (JObj [])) (\<lambda>b. py_get b ''name'' JNull))
      (\<lambda>bucket_name.
        py_then (py_then (py_get (JObj kvs) ''object'' (JObj [])) (\<lambda>ob. py_get ob ''key'' JNull))
          (\<lambda>object_key. Inr (bucket_name, object_key)))"
    unfolding direct_reference_def py_then_assoc ..
  then show ?thesis
    by (simp only: get_nested) simp
qed

text \<open>
  C6, as the specification has it: a direct reference whose bucket name or object key is
  missing or empty is answered with a warning, and no exception is raised. It is not so
  on the body \<^verbatim>\<open>{"bucket": null, "object": {"key": "folder/a.txt"}}\<close>, which has no
  \<^verbatim>\<open>Records\<close> and no bucket name: \<^verbatim>\<open>message_body.get('bucket', {})\<close> is
  \<^verbatim>\<open>None\<close>, the \<^verbatim>\<open>.get('name')\<close> on it raises \<^verbatim>\<open>AttributeError\<close>, and the only
  line logged for the envelope is the error line of the \<^verbatim>\<open>except\<close> clause.
\<close>

theorem incomplete_direct_reference_counterexample:
  "parse_body loads_null_bucket (envelope ''m1'') =
     Inr (JObj [(''bucket'', JNull), (''object'', JObj [(''key'', JStr ''folder/a.txt'')])]) \<and>
   py_contains ''Records''
     (JObj [(''bucket'', JNull), (''object'', JObj [(''key'', JStr ''folder/a.txt'')])]) =
     Inr False \<and>
   missing_or_empty (nested_field
     [(''bucket'', JNull), (''object'', JObj [(''key'', JStr ''folder/a.txt'')])]
     ''bucket'' ''name'') \<and>
   fst (handle_message_body sample_environ backend_ok
     (JObj [(''bucket'', JNull), (''object'', JObj [(''key'', JStr ''folder/a.txt'')])])
     initial_state) = Inl AttributeError \<and>
   log_lines (process_record sample_environ backend_ok loads_null_bucket (envelope ''m1'')
     initial_state) = [(ERROR, Error_processing_message AttributeError)] \<and>
   (WARNING, Unexpected_message_format
      (JObj [(''bucket'', JNull), (''object'', JObj [(''key'', JStr ''folder/a.txt'')])]))
     \<notin> set (log_lines (process_record sample_environ backend_ok loads_null_bucket
       (envelope ''m1'') initial_state))"
  by (simp add: eval_defs missing_or_empty_def nested_field_def)

text \<open>
  C6, amended. An envelope whose parsed body is an object without \<^verbatim>\<open>Records\<close>, and in
  which the bucket name or the object key is missing or empty, adds exactly one to
  \<open>error_count\<close>, leaves \<open>success_count\<close> as it is and sends no request to the backend;
  the handler goes on to the next envelope. When the fields \<^verbatim>\<open>bucket\<close> and \<^verbatim>\<open>object\<close>
  are each absent or an object, no exception is raised and the one line logged is the
  warning. When one of them is there and is not an object, reading the reference raises
  \<^verbatim>\<open>AttributeError\<close>, which the \<^verbatim>\<open>except\<close> clause of the envelope catches, and the one
  line logged is its error line.
\<close>

theorem incomplete_direct_reference_is_one_error:
  assumes parsed: "parse_body loads sqs_record = Inr (JObj kvs)"
    and direct: "map_of kvs ''Records'' = None"
    and missing: "missing_or_empty (nested_field kvs ''bucket'' ''name'') \<or>
                  missing_or_empty (nested_field kvs ''object'' ''key'')"
  shows "process_record environ copy_object loads sqs_record st =
      (if present_not_object (map_of kvs ''bucket'') \<or> present_not_object (map_of kvs ''object'')
       then logger ERROR (Error_processing_message AttributeError) st
       else logger WARNING (Unexpected_message_format (JObj kvs)) st)
      \<lparr>error_count := error_count st + 1\<rparr> \<and>
    error_count (process_record environ copy_object loads sqs_record st) = error_count st + 1 \<and>
    success_count (process_record environ copy_object loads sqs_record st) = success_count st \<and>
    copy_calls (process_record environ copy_object loads sqs_record st) = copy_calls st \<and>
    fst (handle_message_body environ copy_object (JObj kvs) st) =
      (if present_not_object (map_of kvs ''bucket'') \<or> present_not_object (map_of kvs ''object'')
       then Inl AttributeError else Inr ())"
proof -
  have nr: "py_contains ''Records'' (JObj kvs) = Inr False"
    using direct by (simp add: py_contains_obj del: py_contains.simps)
  have raised: "fst (handle_message_body environ copy_object (JObj kvs) st) =
      (if present_not_object (map_of kvs ''bucket'') \<or> present_not_object (map_of kvs ''object'')
       then Inl AttributeError else Inr ())"
    using missing nr
    by (auto simp: handle_message_body_def direct_reference_obj Let_def
        missing_or_empty_def simp del: py_contains.simps split: option.splits)
  have "process_record environ copy_object loads sqs_record st =
      (if present_not_object (map_of kvs ''bucket'') \<or> present_not_object (map_of kvs ''object'')
       then logger ERROR (Error_processing_message AttributeError) st
       else logger WARNING (Unexpected_message_format (JObj kvs)) st)
      \<lparr>error_count := error_count st + 1\<rparr>"
    using missing parsed nr
    by (auto simp: process_record_def handle_message_body_def direct_reference_obj Let_def
        missing_or_empty_def simp del: py_contains.simps split: option.splits)
  with raised show ?thesis by simp
qed

text \<open>
  A reference without an object key is answered with the warning; one whose bucket is
  \<^verbatim>\<open>null\<close> with the error line. Each is one error.
\<close>

theorem incomplete_direct_reference_is_one_error_witness:
  "parse_body loads_missing_key (envelope ''m1'') =
     Inr (JObj [(''bucket'', JObj [(''name'', JStr ''inbox'')])]) \<and>
   missing_or_empty (nested_field [(''bucket'', JObj [(''name'', JStr ''inbox'')])]
     ''object'' ''key'') \<and>
   process_record sample_environ backend_ok loads_missing_key (envelope ''m1'') initial_state =
     (logger WARNING
        (Unexpected_message_format (JObj [(''bucket'', JObj [(''name'', JStr ''inbox'')])]))
        initial_state)\<lparr>error_count := 1\<rparr> \<and>
   parse_body loads_null_bucket (envelope ''m1'') =
     Inr (JObj [(''bucket'', JNull), (''object'', JObj [(''key'', JStr ''folder/a.txt'')])]) \<and>
   missing_or_empty (nested_field
     [(''bucket'', JNull), (''object'', JObj [(''key'', JStr ''folder/a.txt'')])]
     ''bucket'' ''name'') \<and>
   process_record sample_environ backend_ok loads_null_bucket (envelope ''m1'') initial_state =
     (logger ERROR (Error_processing_message AttributeError) initial_state)
       \<lparr>error_count := 1\<rparr>"
proof -
  let ?k1 = "[(''bucket'', JObj [(''name'', JStr ''inbox'')])]"
  let ?k2 = "[(''bucket'', JNull), (''object'', JObj [(''key'', JStr ''folder/a.txt'')])]"
  have p1: "parse_body loads_missing_key (envelope ''m1'') = Inr (JObj ?k1)"
    by (simp add: parse_body_def envelope_def loads_missing_key_def missing_key_body_def)
  have d1: "map_of ?k1 ''Records'' = None" by simp
  have m1: "missing_or_empty (nested_field ?k1 ''object'' ''key'')"
    by (simp add: missing_or_empty_def nested_field_def)
  then have m1': "missing_or_empty (nested_field ?k1 ''bucket'' ''name'') \<or>
                  missing_or_empty (nested_field ?k1 ''object'' ''key'')" ..
  have p2: "parse_body loads_null_bucket (envelope ''m1'') = Inr (JObj ?k2)"
    by (simp add: parse_body_def envelope_def loads_null_bucket_def null_bucket_body_def)
  have d2: "map_of ?k2 ''Records'' = None" by simp
  have m2: "missing_or_empty (nested_field ?k2 ''bucket'' ''name'')"
    by (simp add: missing_or_empty_def nested_field_def)
  then have m2': "missing_or_empty (nested_field ?k2 ''bucket'' ''name'') \<or>
                  missing_or_empty (nested_field ?k2 ''object'' ''key'')" ..
  from incomplete_direct_reference_is_one_error [OF p1 d1 m1', of sample_environ backend_ok
      initial_state]
    incomplete_direct_reference_is_one_error [OF p2 d2 m2', of sample_environ backend_ok
      initial_state] p1 m1 p2 m2
  show ?thesis by (simp add: present_not_object_def initial_state_def)
qed

section \<open>The validator\<close>

text \<open>
  C9. The docstring of \<^verbatim>\<open>validate_s3_notification\<close> promises \<^verbatim>\<open>True\<close> if the body is
  valid and \<^verbatim>\<open>False\<close> otherwise. On the dictionary
  \<^verbatim>\<open>{"bucket": null, "object": {"key": "folder/a.txt"}}\<close>, which has no bucket name, the
  tests \<^verbatim>\<open>'bucket' in message_body\<close> and \<^verbatim>\<open>'object' in message_body\<close> pass, and
  \<^verbatim>\<open>message_body['bucket'].get('name')\<close> raises \<^verbatim>\<open>AttributeError\<close>: the validator
  returns neither value.
\<close>

theorem validator_raises_on_null_bucket:
  "validate_s3_notification
     (JObj [(''bucket'', JNull), (''object'', JObj [(''key'', JStr ''folder/a.txt'')])]) =
   Inl AttributeError"
  by (simp add: validate_s3_notification_def)

end
